theory Spec2Isabelle
  imports Main "HOL-Library.Multiset" "HOL-Library.List_Lexorder" "HOL-Library.Product_Lexorder"
    "HOL-Library.AList"
begin

section \<open>Texts\<close>

text \<open>
  A Go string is read here as the sequence of its code points, the sequence that
  \<^verbatim>\<open>range s\<close> yields. The texts of this program are decoded JSON and answers of the
  generator, both valid UTF-8, and every needle the program searches for is ASCII, so a
  search over code points finds what a search over bytes finds.
\<close>

type_synonym rune = nat
type_synonym str = "rune list"

text \<open>An ASCII literal as a text.\<close>

definition runes :: "string \<Rightarrow> str" where
  "runes s = map of_char s"

text \<open>\<^verbatim>\<open>strings.HasPrefix\<close>, \<^verbatim>\<open>strings.HasSuffix\<close>.\<close>

definition HasPrefix :: "str \<Rightarrow> str \<Rightarrow> bool" where
  "HasPrefix s p = (take (length p) s = p)"

definition HasSuffix :: "str \<Rightarrow> str \<Rightarrow> bool" where
  "HasSuffix s p = (length p \<le> length s \<and> drop (length s - length p) s = p)"

text \<open>
  \<^verbatim>\<open>strings.Index\<close>: the position of the first occurrence of \<open>sub\<close> in \<open>s\<close>;
  \<open>None\<close> is Go's \<open>-1\<close>.
\<close>

fun Index :: "str \<Rightarrow> str \<Rightarrow> nat option" where
  "Index [] sub = (if sub = [] then Some 0 else None)"
| "Index (c # cs) sub =
     (if HasPrefix (c # cs) sub then Some 0 else map_option Suc (Index cs sub))"

text \<open>\<^verbatim>\<open>strings.Contains(s, substr)\<close> is \<^verbatim>\<open>Index(s, substr) >= 0\<close>.\<close>

definition Contains :: "str \<Rightarrow> str \<Rightarrow> bool" where
  "Contains s sub = (Index s sub \<noteq> None)"

text \<open>
  \<^verbatim>\<open>unicode.ToUpper\<close>: an ASCII rune is mapped by the arithmetic of the function itself;
  any other rune goes through the case tables of the Go library, which are the parameter
  \<open>U\<close>.
\<close>

definition unicode_ToUpper :: "(rune \<Rightarrow> rune) \<Rightarrow> rune \<Rightarrow> rune" where
  "unicode_ToUpper U r =
     (if r \<le> 127 then (if 97 \<le> r \<and> r \<le> 122 then r - 32 else r) else U r)"

text \<open>\<^verbatim>\<open>strings.ToUpper\<close> maps every rune of the text.\<close>

definition ToUpper :: "(rune \<Rightarrow> rune) \<Rightarrow> str \<Rightarrow> str" where
  "ToUpper U s = map (unicode_ToUpper U) s"

text \<open>
  \<^verbatim>\<open>unicode.IsSpace\<close>: the Latin-1 cases of the function's own switch, and beyond
  Latin-1 the White_Space ranges of the Unicode tables of the Go library.
\<close>

definition IsSpace :: "rune \<Rightarrow> bool" where
  "IsSpace r =
     (if r \<le> 255 then r \<in> {9, 10, 11, 12, 13, 32, 133, 160}
      else r = 5760 \<or> (8192 \<le> r \<and> r \<le> 8202) \<or> r = 8232 \<or> r = 8233 \<or> r = 8239
           \<or> r = 8287 \<or> r = 12288)"

text \<open>\<^verbatim>\<open>strings.TrimSpace\<close>, \<^verbatim>\<open>strings.TrimPrefix\<close>, \<^verbatim>\<open>strings.TrimSuffix\<close>.\<close>

definition TrimSpace :: "str \<Rightarrow> str" where
  "TrimSpace s = rev (dropWhile IsSpace (rev (dropWhile IsSpace s)))"

definition TrimPrefix :: "str \<Rightarrow> str \<Rightarrow> str" where
  "TrimPrefix s p = (if HasPrefix s p then drop (length p) s else s)"

definition TrimSuffix :: "str \<Rightarrow> str \<Rightarrow> str" where
  "TrimSuffix s p = (if HasSuffix s p then take (length s - length p) s else s)"

lemma Index_bound: "Index s sub = Some i \<Longrightarrow> i + length sub \<le> length s"
proof (induction s arbitrary: i)
  case Nil
  then show ?case by (simp split: if_splits)
next
  case (Cons c cs)
  show ?case
  proof (cases "HasPrefix (c # cs) sub")
    case True
    then have "length (take (length sub) (c # cs)) = length sub"
      unfolding HasPrefix_def by simp
    then have "length sub \<le> length (c # cs)"
      by simp
    then show ?thesis using True Cons.prems by simp
  next
    case False
    then obtain j where "Index cs sub = Some j" "i = Suc j"
      using Cons.prems by auto
    then show ?thesis using Cons.IH by fastforce
  qed
qed

text \<open>
  \<^verbatim>\<open>strings.Split(s, sep)\<close>: with an empty separator the text is exploded into its
  runes; otherwise the text before each occurrence of the separator, found from the left
  by \<^verbatim>\<open>Index\<close>, and at the end what is left.
\<close>

function Split :: "str \<Rightarrow> str \<Rightarrow> str list" where
  "Split s sep =
     (if sep = [] then map (\<lambda>c. [c]) s
      else (case Index s sep of
              None \<Rightarrow> [s]
            | Some i \<Rightarrow> take i s # Split (drop (i + length sep) s) sep))"
  by pat_completeness auto
termination
proof (relation "measure (\<lambda>(s, sep). length s)")
  show "wf (measure (\<lambda>(s, sep). length s))" by simp
next
  fix s sep :: str and i
  assume "sep \<noteq> []" and "Index s sep = Some i"
  then have "0 < length sep" "i + length sep \<le> length s"
    using Index_bound by auto
  then show "((drop (i + length sep) s, sep), (s, sep)) \<in> measure (\<lambda>(s, sep). length s)"
    by (cases sep) simp_all
qed

declare Split.simps [simp del]

section \<open>The safety filter\<close>

definition forbidden :: "str list" where
  "forbidden = [runes ''DROP'', runes ''DELETE'', runes ''UPDATE'', runes ''ALTER'',
     runes ''TRUNCATE'']"

text \<open>
  \<^verbatim>\<open>IsQuerySafe\<close>: the loop over the forbidden words returns false at the first word
  that the upper-cased query contains, and true when the words are exhausted.
\<close>

fun scan_forbidden :: "str \<Rightarrow> str list \<Rightarrow> bool" where
  "scan_forbidden upperQuery [] = True"
| "scan_forbidden upperQuery (word # ws) =
     (if Contains upperQuery word then False else scan_forbidden upperQuery ws)"

definition IsQuerySafe :: "(rune \<Rightarrow> rune) \<Rightarrow> str \<Rightarrow> bool" where
  "IsQuerySafe U query = scan_forbidden (ToUpper U query) forbidden"

section \<open>The schema introspector\<close>

text \<open>A Go \<^verbatim>\<open>error\<close>, with the message that \<^verbatim>\<open>%v\<close> prints.\<close>

datatype error = Error str

fun message :: "error \<Rightarrow> str" where
  "message (Error m) = m"

text \<open>
  The catalog, as the two views that the introspector reads. A view is the list of its
  rows in the order in which the catalog holds them: for
  \<^verbatim>\<open>information_schema.tables\<close> the order in which the tables were declared.
\<close>

record column_row =
  table_schema :: str
  table_name :: str
  column_name :: str
  data_type :: str
  ordinal_position :: nat

record table_row =
  tables_table_schema :: str
  tables_table_name :: str

text \<open>
  The query of \<^verbatim>\<open>GetSchema\<close>:
  \<^verbatim>\<open>SELECT table_name, column_name, data_type FROM information_schema.columns
  WHERE table_schema = 'public' ORDER BY table_name, ordinal_position\<close>.
  Identifiers are compared in the C collation, the order of code points, which is the
  lexicographic order of \<^typ>\<open>str\<close>.
\<close>

definition columns_query :: "column_row list \<Rightarrow> (str \<times> str \<times> str) list" where
  "columns_query view =
     map (\<lambda>r. (table_name r, column_name r, data_type r))
       (sort_key (\<lambda>r. (table_name r, ordinal_position r))
          (filter (\<lambda>r. table_schema r = runes ''public'') view))"

text \<open>
  The query of \<^verbatim>\<open>GetTables\<close>:
  \<^verbatim>\<open>SELECT table_name FROM information_schema.tables
  WHERE table_schema = 'public' ORDER BY table_name\<close>.
\<close>

definition tables_query :: "table_row list \<Rightarrow> str list" where
  "tables_query view =
     map tables_table_name
       (sort_key tables_table_name
          (filter (\<lambda>r. tables_table_schema r = runes ''public'') view))"

text \<open>
  What \<^verbatim>\<open>DB.Query\<close> hands back: an error, or a cursor, the list of its rows, each
  of which \<^verbatim>\<open>rows.Scan\<close> either reads or fails on.
\<close>

type_synonym 'r fetched = "error + (error + 'r) list"

text \<open>
  The loop of \<^verbatim>\<open>GetSchema\<close> over the cursor, with the builder \<open>b\<close> and
  \<^verbatim>\<open>currentTable\<close>; after the loop the last table is closed.
\<close>

fun schema_loop :: "str \<Rightarrow> str \<Rightarrow> (error + str \<times> str \<times> str) list \<Rightarrow> error + str" where
  "schema_loop b currentTable [] =
     Inr (if currentTable \<noteq> [] then b @ runes '')'' @ [10] else b)"
| "schema_loop b currentTable (Inl err # rows) = Inl err"
| "schema_loop b currentTable (Inr (tableName, columnName, dataType) # rows) =
     (let b1 = (if tableName \<noteq> currentTable
                then (if currentTable \<noteq> [] then b @ runes '')'' @ [10] else b)
                     @ runes ''TABLE '' @ tableName @ runes '' ('' @ [10]
                else b);
          currentTable1 = (if tableName \<noteq> currentTable then tableName else currentTable)
      in schema_loop (b1 @ runes ''  '' @ columnName @ runes '' '' @ dataType @ runes '','' @ [10])
           currentTable1 rows)"

definition GetSchema :: "(str \<times> str \<times> str) fetched \<Rightarrow> error + str" where
  "GetSchema res = (case res of Inl err \<Rightarrow> Inl err | Inr rows \<Rightarrow> schema_loop [] [] rows)"

fun tables_loop :: "str list \<Rightarrow> (error + str) list \<Rightarrow> error + str list" where
  "tables_loop tables [] = Inr tables"
| "tables_loop tables (Inl err # rows) = Inl err"
| "tables_loop tables (Inr tableName # rows) = tables_loop (tables @ [tableName]) rows"

definition GetTables :: "str fetched \<Rightarrow> error + str list" where
  "GetTables res = (case res of Inl err \<Rightarrow> Inl err | Inr rows \<Rightarrow> tables_loop [] rows)"

text \<open>The answer of a store that is reachable and whose rows all scan.\<close>

definition fetched_all :: "'r list \<Rightarrow> 'r fetched" where
  "fetched_all rows = Inr (map Inr rows)"

text \<open>
  The schema description as the specification words it: one block per table of the
  public namespace, the tables by name, each block listing the columns of its table in
  the order of their declaration.
\<close>

definition schema_line :: "column_row \<Rightarrow> str" where
  "schema_line r = runes ''  '' @ column_name r @ runes '' '' @ data_type r @ runes '','' @ [10]"

definition table_block :: "column_row list \<Rightarrow> str \<Rightarrow> str" where
  "table_block pub t =
     runes ''TABLE '' @ t @ runes '' ('' @ [10]
     @ concat (map schema_line (sort_key ordinal_position (filter (\<lambda>r. table_name r = t) pub)))
     @ runes '')'' @ [10]"

definition schema_description :: "column_row list \<Rightarrow> str" where
  "schema_description view =
     (let pub = filter (\<lambda>r. table_schema r = runes ''public'') view
      in concat (map (table_block pub) (sort (remdups (map table_name pub)))))"

text \<open>The cursor over a list of catalog rows, all of which scan.\<close>

definition cursor_rows :: "column_row list \<Rightarrow> (error + str \<times> str \<times> str) list" where
  "cursor_rows xs = map (\<lambda>r. Inr (table_name r, column_name r, data_type r)) xs"

text \<open>
  An example catalog: the tables \<open>t\<close> and \<open>s\<close> of the public namespace, \<open>t\<close> declared
  first and its columns held out of order, and a table of another namespace.
\<close>

definition example_columns :: "column_row list" where
  "example_columns =
    [\<lparr>table_schema = runes ''public'', table_name = runes ''t'', column_name = runes ''b'',
        data_type = runes ''text'', ordinal_position = 2\<rparr>,
     \<lparr>table_schema = runes ''public'', table_name = runes ''s'', column_name = runes ''id'',
        data_type = runes ''integer'', ordinal_position = 1\<rparr>,
     \<lparr>table_schema = runes ''pg_catalog'', table_name = runes ''pg_class'',
        column_name = runes ''oid'', data_type = runes ''oid'', ordinal_position = 1\<rparr>,
     \<lparr>table_schema = runes ''public'', table_name = runes ''t'', column_name = runes ''a'',
        data_type = runes ''integer'', ordinal_position = 1\<rparr>]"

definition example_tables :: "table_row list" where
  "example_tables =
    [\<lparr>tables_table_schema = runes ''public'', tables_table_name = runes ''t''\<rparr>,
     \<lparr>tables_table_schema = runes ''pg_catalog'', tables_table_name = runes ''pg_class''\<rparr>,
     \<lparr>tables_table_schema = runes ''public'', tables_table_name = runes ''s''\<rparr>]"

section \<open>The generator client\<close>

text \<open>
  The answer of the generator: candidates, each with a content that is a list of parts, or
  with no content at all (the \<^verbatim>\<open>Content\<close> pointer of a candidate may be nil).
\<close>

datatype part = TextPart str | OtherPart

type_synonym candidate = "part list option"

text \<open>What a method of the client does: it returns, returns an error, or panics.\<close>

datatype 'a call = Returned 'a | Failed error | Panicked

fun part_text :: "part \<Rightarrow> str" where
  "part_text (TextPart t) = t"
| "part_text OtherPart = []"

text \<open>
  \<^verbatim>\<open>getResponseText\<close>. Reading \<^verbatim>\<open>Content.Parts\<close> of a first candidate without
  content dereferences nil: the result \<open>None\<close>.
\<close>

definition getResponseText :: "candidate list \<Rightarrow> str option" where
  "getResponseText candidates =
     (case candidates of
        [] \<Rightarrow> Some []
      | None # _ \<Rightarrow> None
      | Some parts # _ \<Rightarrow>
          (if parts = [] then Some []
           else Some (TrimSpace (TrimSuffix (TrimSpace (TrimPrefix (TrimPrefix
                  (TrimSpace (concat (map part_text parts)))
                  (runes ''```sql'')) (runes ''```''))) (runes ''```'')))))"

text \<open>\<^verbatim>\<open>int32(maxTokens)\<close>: the conversion keeps the low 32 bits.\<close>

definition int32 :: "int \<Rightarrow> int" where
  "int32 n = (n + 2 ^ 31) mod 2 ^ 32 - 2 ^ 31"

definition data_prompt :: "str \<Rightarrow> str" where
  "data_prompt schema =
     runes ''Schema:'' @ [10] @ schema @ [10, 10]
     @ runes ''Task: Generate 15-20 INSERT statements with UNIQUE and VARIED realistic dummy data. For unique fields like username/email, add random numbers or timestamps to ensure uniqueness (e.g., user123, john.doe.456@example.com). Use single quotes for strings and escape any quotes inside strings properly. Output only valid PostgreSQL INSERT statements, no markdown, no explanations.''"

text \<open>
  \<^verbatim>\<open>GenerateDataSQL\<close>. The external service, under the system instruction that the
  method sets, is the parameter \<open>gen\<close>: from the temperature, the maximum of output
  tokens and the prompt to an error or the candidates.
\<close>

definition GenerateDataSQL ::
    "('t \<Rightarrow> int \<Rightarrow> str \<Rightarrow> error + candidate list) \<Rightarrow> str \<Rightarrow> 't \<Rightarrow> int \<Rightarrow> str call" where
  "GenerateDataSQL gen schema temperature maxTokens =
     (case gen temperature (int32 maxTokens) (data_prompt schema) of
        Inl err \<Rightarrow> Failed err
      | Inr resp \<Rightarrow> (case getResponseText resp of None \<Rightarrow> Panicked | Some t \<Rightarrow> Returned t))"

definition chart_marker :: str where
  "chart_marker = runes ''-- CHART:''"

definition query_prompt :: "str \<Rightarrow> str \<Rightarrow> str" where
  "query_prompt schema userPrompt =
     runes ''Schema:'' @ [10] @ schema @ [10, 10] @ runes ''User Question: '' @ userPrompt
     @ [10, 10]
     @ runes ''Generate the SQL query (remember to add -- CHART: comment if visualization is requested):''"

text \<open>
  \<^verbatim>\<open>NaturalLanguageToSQL\<close>: the generated text and \<^verbatim>\<open>isChart\<close>. Here \<open>gen\<close> is the
  service under the system instruction, the temperature and the token limit that this
  method sets, a function of the prompt.
\<close>

definition NaturalLanguageToSQL ::
    "(str \<Rightarrow> error + candidate list) \<Rightarrow> str \<Rightarrow> str \<Rightarrow> (str \<times> bool) call" where
  "NaturalLanguageToSQL gen schema userPrompt =
     (case gen (query_prompt schema userPrompt) of
        Inl err \<Rightarrow> Failed err
      | Inr resp \<Rightarrow>
          (case getResponseText resp of
             None \<Rightarrow> Panicked
           | Some t \<Rightarrow>
               (let t1 = TrimSpace (TrimSuffix (TrimPrefix (TrimPrefix t (runes ''```sql''))
                           (runes ''```'')) (runes ''```''))
                in Returned (t1, Contains t1 chart_marker))))"

section \<open>The backing store\<close>

text \<open>
  What the driver delivers into an \<^verbatim>\<open>interface{}\<close> destination: nil for SQL NULL, a
  string for a text column, or another Go value.
\<close>

datatype 'd val = Null | Str str | Val 'd

text \<open>
  \<^verbatim>\<open>fmt.Sprintf("%v", v)\<close>; the formatting of the values that are neither nil nor
  strings is the parameter \<open>F\<close>.
\<close>

fun Sprintf_v :: "('d \<Rightarrow> str) \<Rightarrow> 'd val \<Rightarrow> str" where
  "Sprintf_v F Null = runes ''<nil>''"
| "Sprintf_v F (Str t) = t"
| "Sprintf_v F (Val d) = F d"

text \<open>
  A row of a cursor, after \<^verbatim>\<open>rows.Scan\<close> into the slice \<^verbatim>\<open>columns\<close>: the scan
  succeeded or failed, and in both cases the slice holds one value for each column (nil
  where nothing was stored).
\<close>

datatype 'd scanned = Scanned "'d val list" | ScanFailed error "'d val list"

text \<open>
  A cursor: the column names, the rows that \<^verbatim>\<open>rows.Next\<close> delivers before it
  returns false, and the error that ended the iteration, if one did (what
  \<^verbatim>\<open>rows.Err\<close> would return).
\<close>

record 'd cursor =
  Columns :: "str list"
  Rows :: "'d scanned list"
  RowsErr :: "error option"

text \<open>
  What a statement does to the transaction of its connection, when it is a statement of
  transaction control: it commits, rolls back or begins.
\<close>

datatype control = Commits | RollsBack | Begins

text \<open>
  The behaviour of the store, over its contents \<open>'s\<close>: whether a transaction can begin;
  which statements are statements of transaction control; what any other statement does
  to the contents; whether a commit succeeds; what a query returns and leaves behind; and
  the answers to the two catalog queries.
\<close>

record ('s, 'd) store =
  begin_error :: "'s \<Rightarrow> error option"
  tx_control :: "str \<Rightarrow> control option"
  exec_stmt :: "'s \<Rightarrow> str \<Rightarrow> error + 's"
  commit_error :: "'s \<Rightarrow> error option"
  query_stmt :: "'s \<Rightarrow> str \<Rightarrow> (error + 'd cursor) \<times> 's"
  columns_fetch :: "'s \<Rightarrow> (str \<times> str \<times> str) fetched"
  tables_fetch :: "'s \<Rightarrow> str fetched"

text \<open>
  The handle \<^verbatim>\<open>app.DB\<close> and the connection of its transaction: the committed
  contents, which every read outside a transaction sees, and the contents as the
  transaction that is open at the server has them, if one is open.
\<close>

record 's db =
  committed :: 's
  transaction :: "'s option"

definition ErrTxStatus :: error where
  "ErrTxStatus = Error (runes ''pq: unexpected transaction status idle'')"

definition DB_Begin :: "('s, 'd) store \<Rightarrow> 's db \<Rightarrow> error + 's db" where
  "DB_Begin B d =
     (case begin_error B (committed d) of
        Some err \<Rightarrow> Inl err
      | None \<Rightarrow> Inr (d\<lparr>transaction := Some (committed d)\<rparr>))"

text \<open>
  \<^verbatim>\<open>tx.Exec\<close> hands the statement to the server on the connection of the transaction
  and does not look at it. A statement of transaction control acts on the transaction at
  the server: after a commit or a rollback sent as a statement no transaction is open
  there, and the statements that follow on the connection take effect one by one, each
  committed as it succeeds.
\<close>

definition Tx_Exec :: "('s, 'd) store \<Rightarrow> 's db \<Rightarrow> str \<Rightarrow> error + 's db" where
  "Tx_Exec B d stmt =
     (case tx_control B stmt of
        Some Commits \<Rightarrow>
          (case transaction d of
             None \<Rightarrow> Inr d
           | Some w \<Rightarrow>
               (case commit_error B w of
                  Some err \<Rightarrow> Inl err
                | None \<Rightarrow> Inr \<lparr>committed = w, transaction = None\<rparr>))
      | Some RollsBack \<Rightarrow> Inr (d\<lparr>transaction := None\<rparr>)
      | Some Begins \<Rightarrow>
          (case transaction d of
             None \<Rightarrow> Inr (d\<lparr>transaction := Some (committed d)\<rparr>)
           | Some w \<Rightarrow> Inr d)
      | None \<Rightarrow>
          (case transaction d of
             None \<Rightarrow>
               (case exec_stmt B (committed d) stmt of
                  Inl err \<Rightarrow> Inl err
                | Inr w1 \<Rightarrow> Inr (d\<lparr>committed := w1\<rparr>))
           | Some w \<Rightarrow>
               (case exec_stmt B w stmt of
                  Inl err \<Rightarrow> Inl err
                | Inr w1 \<Rightarrow> Inr (d\<lparr>transaction := Some w1\<rparr>))))"

text \<open>
  \<^verbatim>\<open>tx.Rollback\<close> and \<^verbatim>\<open>tx.Commit\<close>. With no transaction open at the server
  the driver refuses both; the handler does not look at the result of the rollback.
\<close>

definition Tx_Rollback :: "'s db \<Rightarrow> 's db" where
  "Tx_Rollback d = d\<lparr>transaction := None\<rparr>"

definition Tx_Commit :: "('s, 'd) store \<Rightarrow> 's db \<Rightarrow> error option \<times> 's db" where
  "Tx_Commit B d =
     (case transaction d of
        None \<Rightarrow> (Some ErrTxStatus, d)
      | Some w \<Rightarrow>
          (case commit_error B w of
             Some err \<Rightarrow> (Some err, d\<lparr>transaction := None\<rparr>)
           | None \<Rightarrow> (None, \<lparr>committed = w, transaction = None\<rparr>)))"

definition DB_Query :: "('s, 'd) store \<Rightarrow> 's db \<Rightarrow> str \<Rightarrow> (error + 'd cursor) \<times> 's db" where
  "DB_Query B d q =
     (case query_stmt B (committed d) q of (res, s1) \<Rightarrow> (res, d\<lparr>committed := s1\<rparr>))"

section \<open>The handlers\<close>

text \<open>
  A Go map with string keys: one entry for each key. \<^verbatim>\<open>m[k] = v\<close> replaces the value
  of a key that is present and adds a key that is not, which is \<^const>\<open>AList.update\<close>.
\<close>

type_synonym 'v gomap = "(str \<times> 'v) list"

text \<open>
  What a handler writes to its caller: \<^verbatim>\<open>http.Error\<close> with a message and a status;
  a plain body; the JSON object of \<^verbatim>\<open>query\<close> (sql, result, isChart, chartType); the
  JSON object of \<^verbatim>\<open>generateData\<close> (message, preview, table); the records written to
  a CSV writer, under a file name; the files of a ZIP archive; the status 200 with no
  body, when the JSON encoder fails and its error is dropped; or nothing, when the handler
  panics.
\<close>

datatype 'd reply =
    HttpError str nat
  | Wrote str
  | QueryJSON str "'d val gomap list" bool str
  | PreviewJSON str "str gomap list" str
  | CsvFile str "str list list"
  | ZipFile "(str \<times> str list list) list"
  | NoBody
  | Aborted

text \<open>
  The outcome of a request: the reply, the prompts sent to the generator, the statements
  that the handler itself sent to the store (in order), and the store afterwards.
\<close>

record ('s, 'd) outcome =
  reply :: "'d reply"
  prompts :: "str list"
  statements :: "str list"
  db_after :: "'s db"

text \<open>
  The row loop of \<^verbatim>\<open>fetchingTableData\<close>: a row whose scan fails is skipped; every
  value is formatted with \<^verbatim>\<open>%v\<close> (the pointer \<^verbatim>\<open>val\<close> is never nil).
\<close>

fun preview_rows :: "('d \<Rightarrow> str) \<Rightarrow> str list \<Rightarrow> 'd scanned list \<Rightarrow> str gomap list" where
  "preview_rows F cols [] = []"
| "preview_rows F cols (ScanFailed err vals # rows) = preview_rows F cols rows"
| "preview_rows F cols (Scanned vals # rows) =
     foldl (\<lambda>m (colName, v). AList.update colName (Sprintf_v F v) m) [] (zip cols vals)
     # preview_rows F cols rows"

definition fetchingTableData ::
    "('d \<Rightarrow> str) \<Rightarrow> ('s, 'd) store \<Rightarrow> 's db \<Rightarrow> str \<Rightarrow> (error + str gomap list) \<times> 's db" where
  "fetchingTableData F B d tableName =
     (case DB_Query B d (runes ''SELECT * FROM '' @ tableName @ runes '' LIMIT 10'') of
        (Inl err, d1) \<Rightarrow> (Inl err, d1)
      | (Inr cur, d1) \<Rightarrow> (Inr (preview_rows F (Columns cur) (Rows cur)), d1))"

text \<open>
  The loop of \<^verbatim>\<open>generateData\<close> over the statements, inside the transaction: the
  result (the error and the statement that failed, after the rollback), the statements
  sent, and the handle.
\<close>

fun exec_statements ::
    "('s, 'd) store \<Rightarrow> 's db \<Rightarrow> str list \<Rightarrow> (error \<times> str + unit) \<times> str list \<times> 's db" where
  "exec_statements B d [] = (Inr (), [], d)"
| "exec_statements B d (stmt0 # rest) =
     (let stmt = TrimSpace stmt0 in
      if stmt = [] then exec_statements B d rest
      else (case Tx_Exec B d stmt of
              Inl err \<Rightarrow> (Inl (err, stmt), [stmt], Tx_Rollback d)
            | Inr d1 \<Rightarrow>
                (case exec_statements B d1 rest of
                   (res, sent, d2) \<Rightarrow> (res, stmt # sent, d2))))"

text \<open>
  \<^verbatim>\<open>generateData\<close>, lines 160 to 184: split, begin, execute, commit. The result is the
  reply of a failure, or nothing when the batch is committed.
\<close>

definition execute_generated ::
    "('s, 'd) store \<Rightarrow> 's db \<Rightarrow> str \<Rightarrow> 'd reply option \<times> str list \<times> 's db" where
  "execute_generated B d sqlResult =
     (case DB_Begin B d of
        Inl err \<Rightarrow> (Some (HttpError (runes ''Database error'') 500), [], d)
      | Inr d1 \<Rightarrow>
          (case exec_statements B d1 (Split sqlResult (runes '';'')) of
             (Inl (err, stmt), sent, d2) \<Rightarrow>
               (Some (HttpError (runes ''Error executing generated SQL: '' @ message err
                   @ [10] @ runes ''SQL: '' @ stmt) 500), sent, d2)
           | (Inr u, sent, d2) \<Rightarrow>
               (case Tx_Commit B d2 of
                  (Some err, d3) \<Rightarrow>
                    (Some (HttpError (runes ''Transaction commit error'') 500), sent, d3)
                | (None, d3) \<Rightarrow> (None, sent, d3))))"

text \<open>\<^verbatim>\<open>generateData\<close>, lines 186 to 206: the preview of the first table.\<close>

definition preview_reply ::
    "('d \<Rightarrow> str) \<Rightarrow> ('s, 'd) store \<Rightarrow> 's db \<Rightarrow> 'd reply \<times> str list \<times> 's db" where
  "preview_reply F B d =
     (case GetTables (tables_fetch B (committed d)) of
        Inr (table # _) \<Rightarrow>
          (case fetchingTableData F B d table of
             (Inl err, d1) \<Rightarrow>
               (Wrote (runes ''Data generated successfully''),
                [runes ''SELECT * FROM '' @ table @ runes '' LIMIT 10''], d1)
           | (Inr previewData, d1) \<Rightarrow>
               (PreviewJSON (runes ''Data generated successfully'') previewData table,
                [runes ''SELECT * FROM '' @ table @ runes '' LIMIT 10''], d1))
      | _ \<Rightarrow> (Wrote (runes ''Data generated but no tables found to preview''), [], d))"

text \<open>The decoded body of a generation request.\<close>

record 't generation_request =
  Temperature :: 't
  MaxTokens :: int

text \<open>
  \<^verbatim>\<open>generateData\<close>. The request is its method and its body, \<open>None\<close> when the body does
  not decode.
\<close>

definition generateData ::
    "('d \<Rightarrow> str) \<Rightarrow> ('s, 'd) store \<Rightarrow> ('t \<Rightarrow> int \<Rightarrow> str \<Rightarrow> error + candidate list) \<Rightarrow>
     str \<Rightarrow> 't generation_request option \<Rightarrow> 's db \<Rightarrow> ('s, 'd) outcome" where
  "generateData F B gen httpMethod body d =
     (if httpMethod \<noteq> runes ''POST'' then
        \<lparr>reply = HttpError (runes ''Method not allowed'') 405, prompts = [], statements = [],
         db_after = d\<rparr>
      else (case body of
        None \<Rightarrow>
          \<lparr>reply = HttpError (runes ''Invalid request body'') 400, prompts = [],
           statements = [], db_after = d\<rparr>
      | Some req \<Rightarrow>
          (case GetSchema (columns_fetch B (committed d)) of
             Inl err \<Rightarrow>
               \<lparr>reply = HttpError (runes ''Error fetching schema'') 500, prompts = [],
                statements = [], db_after = d\<rparr>
           | Inr schema \<Rightarrow>
               if schema = [] then
                 \<lparr>reply = HttpError (runes ''No tables found in database'') 400, prompts = [],
                  statements = [], db_after = d\<rparr>
               else (case GenerateDataSQL gen schema (Temperature req) (MaxTokens req) of
                  Failed err \<Rightarrow>
                    \<lparr>reply = HttpError (runes ''Gemini error: '' @ message err) 500,
                     prompts = [data_prompt schema], statements = [], db_after = d\<rparr>
                | Panicked \<Rightarrow>
                    \<lparr>reply = Aborted, prompts = [data_prompt schema], statements = [],
                     db_after = d\<rparr>
                | Returned sqlResult \<Rightarrow>
                    (case execute_generated B d sqlResult of
                       (Some failure, sent, d1) \<Rightarrow>
                         \<lparr>reply = failure, prompts = [data_prompt schema], statements = sent,
                          db_after = d1\<rparr>
                     | (None, sent, d1) \<Rightarrow>
                         (case preview_reply F B d1 of
                            (r, sent1, d2) \<Rightarrow>
                              \<lparr>reply = r, prompts = [data_prompt schema],
                               statements = sent @ sent1, db_after = d2\<rparr>))))))"

text \<open>\<^verbatim>\<open>query\<close>, lines 235 to 244: the executable SQL and the chart type.\<close>

definition strip_chart :: "str \<Rightarrow> bool \<Rightarrow> str \<times> str" where
  "strip_chart generatedSQL isChart =
     (if isChart then
        (case Split generatedSQL chart_marker of
           p0 # p1 # _ \<Rightarrow> (p0, TrimSpace p1)
         | _ \<Rightarrow> (generatedSQL, []))
      else (generatedSQL, []))"

text \<open>The text of a chart directive: what follows the marker, up to the next marker.\<close>

definition directive :: "str \<Rightarrow> str" where
  "directive post =
     TrimSpace (case Index post chart_marker of None \<Rightarrow> post | Some k \<Rightarrow> take k post)"

text \<open>
  The row loop of \<^verbatim>\<open>query\<close>: a row whose scan fails is skipped; a row that scans
  becomes the map from the column names to its values.
\<close>

definition row_map :: "str list \<Rightarrow> 'd val list \<Rightarrow> 'd val gomap" where
  "row_map cols vals = foldl (\<lambda>m (colName, v). AList.update colName v m) [] (zip cols vals)"

fun result_rows :: "str list \<Rightarrow> 'd scanned list \<Rightarrow> 'd val gomap list" where
  "result_rows cols [] = []"
| "result_rows cols (ScanFailed err vals # rows) = result_rows cols rows"
| "result_rows cols (Scanned vals # rows) = row_map cols vals # result_rows cols rows"

text \<open>
  Whether \<^verbatim>\<open>json.Encoder.Encode\<close> can write the rows: nil and strings it can, and
  of the other values those that JSON can carry, the parameter \<open>J\<close> (a float that is not
  a number it cannot).
\<close>

fun json_value :: "('d \<Rightarrow> bool) \<Rightarrow> 'd val \<Rightarrow> bool" where
  "json_value J Null = True"
| "json_value J (Str t) = True"
| "json_value J (Val x) = J x"

definition json_rows :: "('d \<Rightarrow> bool) \<Rightarrow> 'd val gomap list \<Rightarrow> bool" where
  "json_rows J rows = list_all (\<lambda>row. list_all (\<lambda>(colName, v). json_value J v) row) rows"

text \<open>
  \<^verbatim>\<open>query\<close>. The request is its method and its prompt, \<open>None\<close> when the body does not
  decode. The handler reads neither \<^verbatim>\<open>rows.Err\<close> nor the error of the encoder.
\<close>

definition query ::
    "(rune \<Rightarrow> rune) \<Rightarrow> ('d \<Rightarrow> bool) \<Rightarrow> ('s, 'd) store \<Rightarrow> (str \<Rightarrow> error + candidate list) \<Rightarrow>
     str \<Rightarrow> str option \<Rightarrow> 's db \<Rightarrow> ('s, 'd) outcome" where
  "query U J B gen httpMethod body d =
     (if httpMethod \<noteq> runes ''POST'' then
        \<lparr>reply = HttpError (runes ''Method not allowed'') 405, prompts = [], statements = [],
         db_after = d\<rparr>
      else (case body of
        None \<Rightarrow>
          \<lparr>reply = HttpError (runes ''Invalid JSON'') 400, prompts = [], statements = [],
           db_after = d\<rparr>
      | Some prompt \<Rightarrow>
          (case GetSchema (columns_fetch B (committed d)) of
             Inl err \<Rightarrow>
               \<lparr>reply = HttpError (runes ''Error fetching schema'') 500, prompts = [],
                statements = [], db_after = d\<rparr>
           | Inr schema \<Rightarrow>
               (case NaturalLanguageToSQL gen schema prompt of
                  Failed err \<Rightarrow>
                    \<lparr>reply = HttpError (runes ''AI Error: '' @ message err) 500,
                     prompts = [query_prompt schema prompt], statements = [], db_after = d\<rparr>
                | Panicked \<Rightarrow>
                    \<lparr>reply = Aborted, prompts = [query_prompt schema prompt], statements = [],
                     db_after = d\<rparr>
                | Returned (generatedSQL, isChart) \<Rightarrow>
                    (case strip_chart generatedSQL isChart of
                       (execSQL, chartType) \<Rightarrow>
                         if \<not> IsQuerySafe U execSQL then
                           \<lparr>reply = HttpError (runes ''Unsafe query generated. Operation blocked.'') 403,
                            prompts = [query_prompt schema prompt], statements = [],
                            db_after = d\<rparr>
                         else (case DB_Query B d execSQL of
                            (Inl err, d1) \<Rightarrow>
                              \<lparr>reply = HttpError (runes ''Query execution error: '' @ message err
                                 @ [10] @ runes ''SQL: '' @ execSQL) 500,
                               prompts = [query_prompt schema prompt], statements = [execSQL],
                               db_after = d1\<rparr>
                          | (Inr cur, d1) \<Rightarrow>
                              \<lparr>reply =
                                 (if json_rows J (result_rows (Columns cur) (Rows cur))
                                  then QueryJSON generatedSQL
                                    (result_rows (Columns cur) (Rows cur)) isChart chartType
                                  else NoBody),
                               prompts = [query_prompt schema prompt], statements = [execSQL],
                               db_after = d1\<rparr>))))))"

text \<open>
  The cell of a CSV record, in both exports: the empty string for nil, the \<^verbatim>\<open>%v\<close>
  format otherwise.
\<close>

definition csv_cell :: "('d \<Rightarrow> str) \<Rightarrow> 'd val \<Rightarrow> str" where
  "csv_cell F v = (if v = Null then [] else Sprintf_v F v)"

text \<open>The row loop of \<^verbatim>\<open>downloadCSV\<close>: a row whose scan fails is skipped.\<close>

fun csv_records :: "('d \<Rightarrow> str) \<Rightarrow> 'd scanned list \<Rightarrow> str list list" where
  "csv_records F [] = []"
| "csv_records F (ScanFailed err vals # rows) = csv_records F rows"
| "csv_records F (Scanned vals # rows) = map (csv_cell F) vals # csv_records F rows"

text \<open>
  \<^verbatim>\<open>downloadCSV\<close>, from the value of the \<^verbatim>\<open>table\<close> parameter of the URL (empty when
  absent). The records are the ones handed to the CSV writer, the header first.
\<close>

definition export_table ::
    "('d \<Rightarrow> str) \<Rightarrow> ('s, 'd) store \<Rightarrow> str \<Rightarrow> 's db \<Rightarrow> ('s, 'd) outcome" where
  "export_table F B tableName d =
     (case DB_Query B d (runes ''SELECT * FROM '' @ tableName) of
        (Inl err, d1) \<Rightarrow>
          \<lparr>reply = HttpError (runes ''Error querying table'') 500, prompts = [],
           statements = [runes ''SELECT * FROM '' @ tableName], db_after = d1\<rparr>
      | (Inr cur, d1) \<Rightarrow>
          \<lparr>reply = CsvFile (tableName @ runes ''.csv'') (Columns cur # csv_records F (Rows cur)),
           prompts = [], statements = [runes ''SELECT * FROM '' @ tableName], db_after = d1\<rparr>)"

definition downloadCSV ::
    "('d \<Rightarrow> str) \<Rightarrow> ('s, 'd) store \<Rightarrow> str \<Rightarrow> 's db \<Rightarrow> ('s, 'd) outcome" where
  "downloadCSV F B tableParam d =
     (if tableParam = [] then
        (case GetTables (tables_fetch B (committed d)) of
           Inr (table # _) \<Rightarrow> export_table F B table d
         | _ \<Rightarrow>
           \<lparr>reply = HttpError (runes ''No table specified'') 400, prompts = [],
            statements = [], db_after = d\<rparr>)
      else export_table F B tableParam d)"

text \<open>
  The row loop of \<^verbatim>\<open>downloadZip\<close>: the result of the scan is not looked at, and a
  record is written for every row.
\<close>

fun zip_records :: "('d \<Rightarrow> str) \<Rightarrow> 'd scanned list \<Rightarrow> str list list" where
  "zip_records F [] = []"
| "zip_records F (ScanFailed err vals # rows) = map (csv_cell F) vals # zip_records F rows"
| "zip_records F (Scanned vals # rows) = map (csv_cell F) vals # zip_records F rows"

text \<open>
  The loop of \<^verbatim>\<open>downloadZip\<close> over the tables: a table whose query fails, or whose
  file the archive cannot create (the predicate \<open>creatable\<close> on the file name), is left
  out. The result: the files, the statements sent, the handle.
\<close>

fun zip_tables ::
    "('d \<Rightarrow> str) \<Rightarrow> ('s, 'd) store \<Rightarrow> (str \<Rightarrow> bool) \<Rightarrow> 's db \<Rightarrow> str list \<Rightarrow>
     (str \<times> str list list) list \<times> str list \<times> 's db" where
  "zip_tables F B creatable d [] = ([], [], d)"
| "zip_tables F B creatable d (tableName # tables) =
     (case DB_Query B d (runes ''SELECT * FROM '' @ tableName) of
        (res, d1) \<Rightarrow>
          (case zip_tables F B creatable d1 tables of
             (files, sent, d2) \<Rightarrow>
               (case res of
                  Inl err \<Rightarrow> (files, (runes ''SELECT * FROM '' @ tableName) # sent, d2)
                | Inr cur \<Rightarrow>
                    if \<not> creatable (tableName @ runes ''.csv'')
                    then (files, (runes ''SELECT * FROM '' @ tableName) # sent, d2)
                    else ((tableName @ runes ''.csv'',
                           Columns cur # zip_records F (Rows cur)) # files,
                          (runes ''SELECT * FROM '' @ tableName) # sent, d2))))"

definition downloadZip ::
    "('d \<Rightarrow> str) \<Rightarrow> ('s, 'd) store \<Rightarrow> (str \<Rightarrow> bool) \<Rightarrow> 's db \<Rightarrow> ('s, 'd) outcome" where
  "downloadZip F B creatable d =
     (case GetTables (tables_fetch B (committed d)) of
        Inl err \<Rightarrow>
          \<lparr>reply = HttpError (runes ''Error fetching tables'') 500, prompts = [],
           statements = [], db_after = d\<rparr>
      | Inr tables \<Rightarrow>
          (case zip_tables F B creatable d tables of
             (files, sent, d1) \<Rightarrow>
               \<lparr>reply = ZipFile files, prompts = [], statements = sent, db_after = d1\<rparr>))"

text \<open>
  The words by which, in the system instruction of \<^verbatim>\<open>NaturalLanguageToSQL\<close>, the
  generator is told to recognise the request for a chart.
\<close>

definition intent_words :: "str list" where
  "intent_words = [runes ''chart'', runes ''graph'', runes ''plot'', runes ''show'',
     runes ''draw'', runes ''visualize'']"

text \<open>
  A store that delivers the empty string wherever another store delivers nil: the same
  store, but for the values in the rows of its cursors.
\<close>

fun null_as_empty :: "'d val \<Rightarrow> 'd val" where
  "null_as_empty Null = Str []"
| "null_as_empty (Str t) = Str t"
| "null_as_empty (Val x) = Val x"

fun blank_row :: "'d scanned \<Rightarrow> 'd scanned" where
  "blank_row (Scanned vals) = Scanned (map null_as_empty vals)"
| "blank_row (ScanFailed err vals) = ScanFailed err (map null_as_empty vals)"

definition blank_cursor :: "'d cursor \<Rightarrow> 'd cursor" where
  "blank_cursor cur = cur\<lparr>Rows := map blank_row (Rows cur)\<rparr>"

definition blank_store :: "('s, 'd) store \<Rightarrow> ('s, 'd) store" where
  "blank_store B =
     B\<lparr>query_stmt := (\<lambda>s q.
        (case query_stmt B s q of (res, s1) \<Rightarrow> (map_sum id blank_cursor res, s1)))\<rparr>"

section \<open>The batch, as the specification words it\<close>

text \<open>
  The generated statement batch: the output of the generator split at the statement
  terminator, the empty fragments discarded. Running a batch on the contents of the store
  applies its statements in order and stops at the first that fails.
\<close>

definition statement_batch :: "str \<Rightarrow> str list" where
  "statement_batch sqlResult =
     filter (\<lambda>stmt. stmt \<noteq> []) (map TrimSpace (Split sqlResult (runes '';'')))"


text \<open>
  The statements of a batch as the connection of the transaction runs them, one after the
  other, up to the first that fails.
\<close>

fun run_on_connection :: "('s, 'd) store \<Rightarrow> 's db \<Rightarrow> str list \<Rightarrow> error \<times> str + 's db" where
  "run_on_connection B d [] = Inr d"
| "run_on_connection B d (stmt # rest) =
     (case Tx_Exec B d stmt of
        Inl err \<Rightarrow> Inl (err, stmt)
      | Inr d1 \<Rightarrow> run_on_connection B d1 rest)"

section \<open>The exports, as records of cells\<close>

text \<open>
  The values that the slice \<^verbatim>\<open>columns\<close> holds after the scan of a row, and the files
  of the archive: for each table in turn, in the contents that the queries before it have
  left, the header and one record of cells for every row of the cursor.
\<close>

fun scanned_values :: "'d scanned \<Rightarrow> 'd val list" where
  "scanned_values (Scanned vals) = vals"
| "scanned_values (ScanFailed err vals) = vals"

fun archive_files ::
    "('d \<Rightarrow> str) \<Rightarrow> ('s, 'd) store \<Rightarrow> (str \<Rightarrow> bool) \<Rightarrow> 's \<Rightarrow> str list \<Rightarrow>
     (str \<times> str list list) list" where
  "archive_files F B creatable s [] = []"
| "archive_files F B creatable s (t # ts) =
     (case query_stmt B s (runes ''SELECT * FROM '' @ t) of
        (Inl err, s1) \<Rightarrow> archive_files F B creatable s1 ts
      | (Inr cur, s1) \<Rightarrow>
          if creatable (t @ runes ''.csv'')
          then (t @ runes ''.csv'',
                Columns cur # map (\<lambda>r. map (csv_cell F) (scanned_values r)) (Rows cur))
               # archive_files F B creatable s1 ts
          else archive_files F B creatable s1 ts)"

section \<open>Examples\<close>

text \<open>
  A store with one table \<open>t\<close> of one column under a uniqueness constraint, whose contents
  are the values of the column; a generator of data that gives one answer to every prompt;
  and the one that answers with the same insertion twice.
\<close>

definition unique_store :: "(nat list, nat) store" where
  "unique_store =
     \<lparr>begin_error = (\<lambda>w. None),
      tx_control = (\<lambda>stmt.
        if stmt = runes ''COMMIT'' then Some Commits
        else if stmt = runes ''ROLLBACK'' then Some RollsBack
        else if stmt = runes ''BEGIN'' then Some Begins
        else None),
      exec_stmt = (\<lambda>w stmt.
        if stmt = runes ''INSERT INTO t VALUES (1)'' then
          (if 1 \<in> set w
           then Inl (Error (runes ''duplicate key value violates unique constraint''))
           else Inr (w @ [1]))
        else Inl (Error (runes ''syntax error''))),
      commit_error = (\<lambda>w. None),
      query_stmt = (\<lambda>w q.
        if q = runes ''ERROR: Unauthorized''
        then (Inl (Error (runes ''syntax error at or near ERROR'')), w)
        else (Inr \<lparr>Columns = [runes ''v''], Rows = map (\<lambda>n. Scanned [Val n]) w,
                   RowsErr = None\<rparr>, w)),
      columns_fetch = (\<lambda>w. fetched_all [(runes ''t'', runes ''v'', runes ''integer'')]),
      tables_fetch = (\<lambda>w. fetched_all [runes ''t''])\<rparr>"


definition twice_generator :: "unit \<Rightarrow> int \<Rightarrow> str \<Rightarrow> error + candidate list" where
  "twice_generator temperature maxTokens prompt =
     Inr [Some [TextPart (runes ''INSERT INTO t VALUES (1); INSERT INTO t VALUES (1)'')]]"

text \<open>
  A generator that gives one answer to every prompt, and a store whose cursors hold a row
  that does not scan and end on an error of the connection.
\<close>

definition fixed_answer :: "str \<Rightarrow> str \<Rightarrow> error + candidate list" where
  "fixed_answer answer prompt = Inr [Some [TextPart answer]]"

definition broken_row_store :: "(nat list, nat) store" where
  "broken_row_store =
     unique_store\<lparr>query_stmt := (\<lambda>w q.
        (Inr \<lparr>Columns = [runes ''v''],
              Rows = [Scanned [Val 1], ScanFailed (Error (runes ''sql: Scan error'')) [Null],
                      Scanned [Val 3]],
              RowsErr = Some (Error (runes ''read: connection reset by peer''))\<rparr>, w))\<rparr>"

text \<open>
  A store whose table has a nil and an empty string side by side, in a row that scans and
  in a row that does not.
\<close>

definition null_store :: "(nat list, nat) store" where
  "null_store =
     unique_store\<lparr>query_stmt := (\<lambda>w q.
        (Inr \<lparr>Columns = [runes ''a'', runes ''b'', runes ''c''],
              Rows = [Scanned [Null, Str [], Val 5], ScanFailed (Error (runes ''sql: Scan error''))
                        [Val 7, Null, Null]],
              RowsErr = None\<rparr>, w))\<rparr>"

section \<open>Facts about texts\<close>




lemma Index_split:
  "Index s sub = Some i \<Longrightarrow> s = take i s @ sub @ drop (i + length sub) s"
proof (induction s arbitrary: i)
  case Nil
  then show ?case by (simp split: if_splits)
next
  case (Cons c cs)
  show ?case
  proof (cases "HasPrefix (c # cs) sub")
    case True
    then have "i = 0" using Cons.prems by simp
    moreover have "c # cs = sub @ drop (length sub) (c # cs)"
      using True unfolding HasPrefix_def by (metis append_take_drop_id)
    ultimately show ?thesis by simp
  next
    case False
    then obtain j where j: "Index cs sub = Some j" "i = Suc j"
      using Cons.prems by auto
    from Cons.IH [OF j(1)] show ?thesis using j(2) by simp
  qed
qed

lemma Index_first:
  "Index s sub = Some i \<Longrightarrow> j < i \<Longrightarrow> \<not> HasPrefix (drop j s) sub"
proof (induction s arbitrary: i j)
  case Nil
  then show ?case by (simp split: if_splits)
next
  case (Cons c cs)
  have np: "\<not> HasPrefix (c # cs) sub"
    using Cons.prems by (auto split: if_splits)
  then obtain k where k: "Index cs sub = Some k" "i = Suc k"
    using Cons.prems by auto
  show ?case
  proof (cases j)
    case 0
    then show ?thesis using np by simp
  next
    case (Suc j')
    then have "j' < k" using Cons.prems(2) k(2) by simp
    from Cons.IH [OF k(1) this] show ?thesis using Suc by simp
  qed
qed

lemma Split_found:
  "sep \<noteq> [] \<Longrightarrow> Index s sep = Some i \<Longrightarrow>
   Split s sep = take i s # Split (drop (i + length sep) s) sep"
  by (subst Split.simps) simp

lemma Split_head:
  "sep \<noteq> [] \<Longrightarrow>
   \<exists>rest. Split s sep = (case Index s sep of None \<Rightarrow> s | Some k \<Rightarrow> take k s) # rest"
  by (subst Split.simps) (simp split: option.splits)

lemma chart_marker_nonempty: "chart_marker \<noteq> []"
  by (simp add: chart_marker_def runes_def)

section \<open>Facts about the introspector\<close>

lemma tables_loop_all: "tables_loop acc (map Inr xs) = Inr (acc @ xs)"
  by (induction xs arbitrary: acc) auto

lemma schema_loop_same_table:
  "\<forall>r \<in> set xs. table_name r = t \<Longrightarrow>
   schema_loop b t (cursor_rows xs @ rest) = schema_loop (b @ concat (map schema_line xs)) t rest"
  by (induction xs arbitrary: b) (auto simp: cursor_rows_def schema_line_def)

lemma schema_loop_groups:
  assumes "distinct ts" "cur \<notin> set ts" "[] \<notin> set ts"
    and "\<And>t. t \<in> set ts \<Longrightarrow> G t \<noteq> [] \<and> (\<forall>r \<in> set (G t). table_name r = t)"
  shows "schema_loop b cur (cursor_rows (concat (map G ts))) =
     Inr ((if cur \<noteq> [] then b @ runes '')'' @ [10] else b)
          @ concat (map (\<lambda>t. runes ''TABLE '' @ t @ runes '' ('' @ [10]
               @ concat (map schema_line (G t)) @ runes '')'' @ [10]) ts))"
  using assms
proof (induction ts arbitrary: b cur)
  case Nil
  then show ?case by (simp add: cursor_rows_def)
next
  case (Cons t ts)
  let ?pre = "(if cur \<noteq> [] then b @ runes '')'' @ [10] else b)"
  from Cons.prems(4)[of t] obtain x xs where g: "G t = x # xs"
    by (cases "G t") auto
  have same: "\<forall>r \<in> set (x # xs). table_name r = t"
    using Cons.prems(4)[of t] g by simp
  have tne: "t \<noteq> cur" "t \<noteq> []" using Cons.prems by auto
  have split: "cursor_rows (concat (map G (t # ts))) =
      cursor_rows [x] @ cursor_rows xs @ cursor_rows (concat (map G ts))"
    by (simp add: g cursor_rows_def)
  have step1: "schema_loop b cur (cursor_rows [x] @ cursor_rows xs @ cursor_rows (concat (map G ts)))
      = schema_loop (?pre @ runes ''TABLE '' @ t @ runes '' ('' @ [10] @ schema_line x) t
          (cursor_rows xs @ cursor_rows (concat (map G ts)))"
    using same tne by (simp add: cursor_rows_def schema_line_def)
  have step2: "\<dots> = schema_loop (?pre @ runes ''TABLE '' @ t @ runes '' ('' @ [10]
           @ concat (map schema_line (x # xs))) t (cursor_rows (concat (map G ts)))"
    using same by (simp add: schema_loop_same_table)
  have ih: "schema_loop b' t (cursor_rows (concat (map G ts))) =
     Inr ((if t \<noteq> [] then b' @ runes '')'' @ [10] else b')
          @ concat (map (\<lambda>t. runes ''TABLE '' @ t @ runes '' ('' @ [10]
               @ concat (map schema_line (G t)) @ runes '')'' @ [10]) ts))" for b'
    using Cons.prems by (intro Cons.IH) auto
  show ?case
    unfolding split step1 step2 ih using tne by (simp add: g)
qed

lemma filter_concat_groups:
  assumes "distinct ts" "\<And>t. t \<in> set ts \<Longrightarrow> \<forall>r \<in> set (G t). h r = t"
  shows "filter (\<lambda>x. h x = t \<and> Q x) (concat (map G ts)) =
     (if t \<in> set ts then filter Q (G t) else [])"
  using assms
proof (induction ts)
  case Nil
  then show ?case by simp
next
  case (Cons u us)
  have hu: "\<forall>r \<in> set (G u). h r = u" using Cons.prems(2) by simp
  have ih: "filter (\<lambda>x. h x = t \<and> Q x) (concat (map G us)) =
     (if t \<in> set us then filter Q (G t) else [])"
    using Cons.prems by (intro Cons.IH) auto
  show ?case
  proof (cases "t = u")
    case True
    then have "filter (\<lambda>x. h x = t \<and> Q x) (G u) = filter Q (G t)"
      using hu by (auto intro: filter_cong)
    moreover have "t \<notin> set us" using True Cons.prems(1) by simp
    ultimately show ?thesis using True ih by simp
  next
    case False
    then have "filter (\<lambda>x. h x = t \<and> Q x) (G u) = []"
      using hu by (auto simp: filter_empty_conv)
    then show ?thesis using False ih by simp
  qed
qed

lemma mset_concat_groups:
  assumes "distinct ts"
  shows "mset (concat (map (\<lambda>t. sort_key k (filter (\<lambda>r. h r = t) xs)) ts)) =
     mset (filter (\<lambda>r. h r \<in> set ts) xs)"
  using assms
proof (induction ts)
  case Nil
  then show ?case by simp
next
  case (Cons u us)
  then have "mset (concat (map (\<lambda>t. sort_key k (filter (\<lambda>r. h r = t) xs)) (u # us))) =
      {#r \<in># mset xs. h r = u#} + {#r \<in># mset xs. h r \<in> set us#}"
    by simp
  also have "\<dots> = {#r \<in># mset xs. h r \<in> set (u # us)#}"
    using Cons.prems by (intro multiset_eqI) auto
  finally show ?case by simp
qed

lemma sorted_concat_groups:
  fixes h :: "'a \<Rightarrow> 'b::linorder" and k :: "'a \<Rightarrow> 'c::linorder"
  assumes "sorted ts" "distinct ts"
  shows "sorted (map (\<lambda>r. (h r, k r))
     (concat (map (\<lambda>t. sort_key k (filter (\<lambda>r. h r = t) xs)) ts)))"
  using assms
proof (induction ts)
  case Nil
  then show ?case by simp
next
  case (Cons u us)
  let ?g = "\<lambda>t. sort_key k (filter (\<lambda>r. h r = t) xs)"
  have "sorted (map k (?g u))" by simp
  then have "sorted_wrt (\<lambda>x y. k x \<le> k y) (?g u)" by (simp add: sorted_map)
  then have "sorted_wrt (\<lambda>x y. (h x, k x) \<le> (h y, k y)) (?g u)"
    by (rule sorted_wrt_mono_rel [rotated]) auto
  then have a: "sorted (map (\<lambda>r. (h r, k r)) (?g u))" by (simp add: sorted_map)
  have b: "sorted (map (\<lambda>r. (h r, k r)) (concat (map ?g us)))"
    using Cons by simp
  have c: "(h x, k x) \<le> (h y, k y)" if "x \<in> set (?g u)" "y \<in> set (concat (map ?g us))" for x y
  proof -
    from that(2) obtain t where "t \<in> set us" "h y = t" by auto
    moreover have "h x = u" using that(1) by simp
    moreover have "u < t" using Cons.prems \<open>t \<in> set us\<close> by (auto simp: less_le)
    ultimately show ?thesis by simp
  qed
  have c': "\<forall>p \<in> set (map (\<lambda>r. (h r, k r)) (?g u)).
      \<forall>q \<in> set (map (\<lambda>r. (h r, k r)) (concat (map ?g us))). p \<le> q"
    using c unfolding set_map by blast
  show ?case
    unfolding list.map concat.simps map_append sorted_append using a b c' by blast
qed

lemma sort_by_table_then_position:
  "sort_key (\<lambda>r. (table_name r, ordinal_position r)) pub =
     concat (map (\<lambda>t. sort_key ordinal_position (filter (\<lambda>r. table_name r = t) pub))
       (sort (remdups (map table_name pub))))"
proof (rule properties_for_sort_key)
  let ?ts = "sort (remdups (map table_name pub))"
  let ?g = "\<lambda>t. sort_key ordinal_position (filter (\<lambda>r. table_name r = t) pub)"
  have d: "distinct ?ts" by simp
  have s: "set ?ts = table_name ` set pub" by simp
  show "mset (concat (map ?g ?ts)) = mset pub"
    unfolding mset_concat_groups [OF d] s by (simp add: filter_mset_cong)
  show "sorted (map (\<lambda>r. (table_name r, ordinal_position r)) (concat (map ?g ?ts)))"
    by (rule sorted_concat_groups) simp_all
  fix c assume "c \<in> set (concat (map ?g ?ts))"
  then have cin: "table_name c \<in> set ?ts" by auto
  have "filter (\<lambda>x. (table_name c, ordinal_position c) = (table_name x, ordinal_position x))
          (concat (map ?g ?ts))
      = filter (\<lambda>x. table_name x = table_name c \<and> ordinal_position x = ordinal_position c)
          (concat (map ?g ?ts))"
    by (intro filter_cong) auto
  also have "\<dots> = filter (\<lambda>x. ordinal_position x = ordinal_position c) (?g (table_name c))"
    using cin by (subst filter_concat_groups [OF d]) auto
  also have "\<dots> = filter (\<lambda>x. ordinal_position x = ordinal_position c)
      (filter (\<lambda>r. table_name r = table_name c) pub)"
    by (rule sort_key_stable)
  also have "\<dots> = filter (\<lambda>x. (table_name c, ordinal_position c) = (table_name x, ordinal_position x)) pub"
    by (simp, intro filter_cong) auto
  finally show "filter (\<lambda>x. (table_name c, ordinal_position c) = (table_name x, ordinal_position x))
          (concat (map ?g ?ts))
      = filter (\<lambda>x. (table_name c, ordinal_position c) = (table_name x, ordinal_position x)) pub" .
qed


lemma schema_loop_total: "\<exists>schema. schema_loop b cur (map Inr rows) = Inr schema"
  by (induction rows arbitrary: b cur) (auto simp: Let_def)

lemma GetSchema_description:
  assumes "\<forall>r \<in> set cv. table_schema r = runes ''public'' \<longrightarrow> table_name r \<noteq> []"
  shows "GetSchema (fetched_all (columns_query cv)) = Inr (schema_description cv)"
proof -
  define pub where "pub = filter (\<lambda>r. table_schema r = runes ''public'') cv"
  let ?ts = "sort (remdups (map table_name pub))"
  let ?g = "\<lambda>t. sort_key ordinal_position (filter (\<lambda>r. table_name r = t) pub)"
  have rows: "map Inr (columns_query cv) = cursor_rows (concat (map ?g ?ts))"
    unfolding columns_query_def cursor_rows_def pub_def [symmetric]
    by (simp add: sort_by_table_then_position [of pub] comp_def)
  have g: "?g t \<noteq> [] \<and> (\<forall>r \<in> set (?g t). table_name r = t)" if "t \<in> set ?ts" for t
  proof -
    from that obtain r where "r \<in> set pub" "table_name r = t" by auto
    then have mem: "r \<in> set (?g t)" by simp
    have "?g t \<noteq> []"
    proof
      assume e: "?g t = []"
      have "r \<in> set []" using mem unfolding e .
      then show False by simp
    qed
    moreover have "\<forall>r \<in> set (?g t). table_name r = t" by simp
    ultimately show ?thesis by blast
  qed
  have ne: "[] \<notin> set ?ts" using assms by (auto simp: pub_def)
  have "schema_loop [] [] (cursor_rows (concat (map ?g ?ts))) =
     Inr ((if [] \<noteq> ([]::str) then [] @ runes '')'' @ [10] else [])
       @ concat (map (\<lambda>t. runes ''TABLE '' @ t @ runes '' ('' @ [10]
               @ concat (map schema_line (?g t)) @ runes '')'' @ [10]) ?ts))"
  proof (rule schema_loop_groups)
    show "distinct ?ts" by simp
    show "[] \<notin> set ?ts" by (rule ne)
    show "[] \<notin> set ?ts" by (rule ne)
    show "?g t \<noteq> [] \<and> (\<forall>r \<in> set (?g t). table_name r = t)" if "t \<in> set ?ts" for t
      using that by (rule g)
  qed
  then have loop: "schema_loop [] [] (cursor_rows (concat (map ?g ?ts))) =
     Inr (concat (map (\<lambda>t. runes ''TABLE '' @ t @ runes '' ('' @ [10]
               @ concat (map schema_line (?g t)) @ runes '')'' @ [10]) ?ts))"
    by (simp only: simp_thms if_False append_Nil)
  have descr: "schema_description cv =
     concat (map (\<lambda>t. runes ''TABLE '' @ t @ runes '' ('' @ [10]
               @ concat (map schema_line (?g t)) @ runes '')'' @ [10]) ?ts)"
    unfolding schema_description_def pub_def [symmetric] Let_def table_block_def ..
  have "GetSchema (fetched_all (columns_query cv)) =
      schema_loop [] [] (map Inr (columns_query cv))"
    by (simp add: GetSchema_def fetched_all_def)
  then show ?thesis
    unfolding rows loop descr .
qed


lemma columns_query_physical_order:
  assumes "mset cv1 = mset cv2"
    and "inj_on (\<lambda>r. (table_name r, ordinal_position r))
           {r \<in> set cv1. table_schema r = runes ''public''}"
  shows "columns_query cv1 = columns_query cv2"
proof -
  let ?P = "\<lambda>r. table_schema r = runes ''public''"
  have "mset (filter ?P cv1) = mset (filter ?P cv2)" using assms(1) by simp
  moreover have "set (filter ?P cv1) = {r \<in> set cv1. table_schema r = runes ''public''}"
    by auto
  then have "inj_on (\<lambda>r. (table_name r, ordinal_position r)) (set (filter ?P cv1))"
    using assms(2) by (simp only:)
  moreover have "sorted (map (\<lambda>r. (table_name r, ordinal_position r))
      (sort_key (\<lambda>r. (table_name r, ordinal_position r)) (filter ?P cv2)))"
    by (rule sorted_sort_key)
  moreover have "mset (sort_key (\<lambda>r. (table_name r, ordinal_position r)) (filter ?P cv2))
      = mset (filter ?P cv2)"
    by (rule mset_sort)
  ultimately have "sort_key (\<lambda>r. (table_name r, ordinal_position r)) (filter ?P cv1) =
      sort_key (\<lambda>r. (table_name r, ordinal_position r)) (filter ?P cv2)"
    by (intro sort_key_inj_key_eq) (simp_all only:)
  then show ?thesis by (simp only: columns_query_def)
qed

lemma example_description:
  "schema_description example_columns =
     runes ''TABLE s ('' @ [10] @ runes ''  id integer,'' @ [10] @ runes '')'' @ [10]
     @ runes ''TABLE t ('' @ [10] @ runes ''  a integer,'' @ [10] @ runes ''  b text,'' @ [10]
     @ runes '')'' @ [10]"
  by (simp add: schema_description_def example_columns_def table_block_def schema_line_def
      runes_def)

section \<open>Facts about the handlers\<close>



lemma exec_statements_connection:
  "case exec_statements B d stmts of (res, sent, d1) \<Rightarrow>
     (case run_on_connection B d (filter (\<lambda>stmt. stmt \<noteq> []) (map TrimSpace stmts)) of
        Inl failure \<Rightarrow> res = Inl failure
      | Inr d2 \<Rightarrow> res = Inr ())"
proof (induction stmts arbitrary: d)
  case Nil
  then show ?case by simp
next
  case (Cons stmt0 rest)
  show ?case
  proof (cases "TrimSpace stmt0 = []")
    case True
    then show ?thesis using Cons.IH [of d] by (simp add: Let_def)
  next
    case False
    show ?thesis
    proof (cases "Tx_Exec B d (TrimSpace stmt0)")
      case (Inl err)
      then show ?thesis using False by (simp add: Let_def)
    next
      case (Inr d1)
      from Cons.IH [of d1] show ?thesis
        using False Inr by (auto simp: Let_def split: prod.splits sum.splits)
    qed
  qed
qed



lemma execute_generated_failure:
  assumes "begin_error B (committed d) = None"
    and "run_on_connection B (d\<lparr>transaction := Some (committed d)\<rparr>) (statement_batch sql)
           = Inl (err, stmt)"
  shows "\<exists>sent d1. execute_generated B d sql =
     (Some (HttpError (runes ''Error executing generated SQL: '' @ message err
         @ [10] @ runes ''SQL: '' @ stmt) 500), sent, d1)"
  using exec_statements_connection
      [of B "d\<lparr>transaction := Some (committed d)\<rparr>" "Split sql (runes '';'')"] assms
  by (auto simp: execute_generated_def DB_Begin_def statement_batch_def split: prod.splits)


lemma strip_chart_found:
  assumes "Index g chart_marker = Some i"
  shows "strip_chart g True = (take i g, directive (drop (i + length chart_marker) g))"
proof -
  obtain rest where "Split (drop (i + length chart_marker) g) chart_marker =
      (case Index (drop (i + length chart_marker) g) chart_marker of
         None \<Rightarrow> drop (i + length chart_marker) g
       | Some k \<Rightarrow> take k (drop (i + length chart_marker) g)) # rest"
    using Split_head [OF chart_marker_nonempty] by blast
  then show ?thesis
    using Split_found [OF chart_marker_nonempty assms]
    by (simp add: strip_chart_def directive_def)
qed

lemma strip_chart_absent: "strip_chart g False = (g, [])"
  by (simp add: strip_chart_def)

lemma NaturalLanguageToSQL_isChart:
  "NaturalLanguageToSQL gen schema prompt = Returned (g, c) \<Longrightarrow> c = Contains g chart_marker"
  by (auto simp: NaturalLanguageToSQL_def Let_def split: sum.splits option.splits)

lemma query_returned:
  assumes "GetSchema (columns_fetch B (committed d)) = Inr schema"
    and "NaturalLanguageToSQL gen schema prompt = Returned (g, c)"
    and "strip_chart g c = (execSQL, chartType)"
  shows "query U J B gen (runes ''POST'') (Some prompt) d =
     (if \<not> IsQuerySafe U execSQL then
        \<lparr>reply = HttpError (runes ''Unsafe query generated. Operation blocked.'') 403,
         prompts = [query_prompt schema prompt], statements = [], db_after = d\<rparr>
      else (case DB_Query B d execSQL of
         (Inl err, d1) \<Rightarrow>
           \<lparr>reply = HttpError (runes ''Query execution error: '' @ message err
              @ [10] @ runes ''SQL: '' @ execSQL) 500,
            prompts = [query_prompt schema prompt], statements = [execSQL], db_after = d1\<rparr>
       | (Inr cur, d1) \<Rightarrow>
           \<lparr>reply = (if json_rows J (result_rows (Columns cur) (Rows cur))
                     then QueryJSON g (result_rows (Columns cur) (Rows cur)) c chartType
                     else NoBody),
            prompts = [query_prompt schema prompt], statements = [execSQL], db_after = d1\<rparr>))"
  using assms by (simp add: query_def)

lemma query_statements_safe:
  "stmt \<in> set (statements (query U J B gen httpMethod body d)) \<Longrightarrow> IsQuerySafe U stmt"
  by (auto simp: query_def split: if_splits option.splits sum.splits call.splits prod.splits)

lemma query_json:
  assumes "reply (query U J B gen httpMethod body d) = QueryJSON sql rows ic ct"
  shows "\<exists>schema prompt execSQL. httpMethod = runes ''POST'' \<and> body = Some prompt
     \<and> GetSchema (columns_fetch B (committed d)) = Inr schema
     \<and> NaturalLanguageToSQL gen schema prompt = Returned (sql, ic)
     \<and> strip_chart sql ic = (execSQL, ct) \<and> IsQuerySafe U execSQL
     \<and> statements (query U J B gen httpMethod body d) = [execSQL]"
proof -
  have m: "httpMethod = runes ''POST''"
    using assms by (cases "httpMethod = runes ''POST''") (simp_all add: query_def)
  obtain prompt where b: "body = Some prompt"
    using assms m by (cases body) (simp_all add: query_def)
  obtain schema where s: "GetSchema (columns_fetch B (committed d)) = Inr schema"
    using assms m b by (cases "GetSchema (columns_fetch B (committed d))") (simp_all add: query_def)
  obtain g c where n: "NaturalLanguageToSQL gen schema prompt = Returned (g, c)"
    using assms m b s
    by (cases "NaturalLanguageToSQL gen schema prompt") (auto simp: query_def)
  obtain execSQL chartType where st: "strip_chart g c = (execSQL, chartType)"
    by (cases "strip_chart g c") blast
  note q = query_returned [OF s n st, of U J]
  have safe: "IsQuerySafe U execSQL"
    using assms unfolding m b q by (cases "IsQuerySafe U execSQL") simp_all
  obtain res d1 where dq: "DB_Query B d execSQL = (res, d1)"
    by (cases "DB_Query B d execSQL") blast
  have "sql = g \<and> ic = c \<and> ct = chartType
      \<and> statements (query U J B gen httpMethod body d) = [execSQL]"
    using assms unfolding m b q by (cases res) (simp_all add: safe dq split: if_splits)
  then show ?thesis using m b s n st safe by blast
qed

lemma marker_split:
  assumes "Contains g chart_marker"
  shows "\<exists>pre post. g = pre @ chart_marker @ post
      \<and> (\<forall>j < length pre. \<not> HasPrefix (drop j g) chart_marker)
      \<and> strip_chart g True = (pre, directive post)"
proof -
  from assms obtain i where i: "Index g chart_marker = Some i"
    unfolding Contains_def by blast
  let ?pre = "take i g" and ?post = "drop (i + length chart_marker) g"
  have "g = ?pre @ chart_marker @ ?post"
    using i by (rule Index_split)
  moreover have "i + length chart_marker \<le> length g"
    using i by (rule Index_bound)
  then have "length ?pre = i" by simp
  then have "\<forall>j < length ?pre. \<not> HasPrefix (drop j g) chart_marker"
    using Index_first [OF i] by simp
  moreover have "strip_chart g True = (?pre, directive ?post)"
    using i by (rule strip_chart_found)
  ultimately show ?thesis by blast
qed

lemma result_rows_scanned:
  "result_rows cols rows = map (row_map cols) [vals. Scanned vals \<leftarrow> rows]"
proof (induction rows)
  case Nil
  then show ?case by simp
next
  case (Cons r rows)
  then show ?case by (cases r) simp_all
qed

lemma csv_cell_blank: "csv_cell F (null_as_empty v) = csv_cell F v"
  by (cases v) (simp_all add: csv_cell_def)

lemma csv_records_blank: "csv_records F (map blank_row rows) = csv_records F rows"
proof (induction rows)
  case Nil
  then show ?case by simp
next
  case (Cons r rows)
  then show ?case by (cases r) (simp_all add: csv_cell_blank)
qed

lemma zip_records_blank: "zip_records F (map blank_row rows) = zip_records F rows"
proof (induction rows)
  case Nil
  then show ?case by simp
next
  case (Cons r rows)
  then show ?case by (cases r) (simp_all add: csv_cell_blank)
qed

lemma DB_Query_blank:
  "DB_Query (blank_store B) d q =
     (case DB_Query B d q of (res, d1) \<Rightarrow> (map_sum id blank_cursor res, d1))"
  by (simp add: DB_Query_def blank_store_def split: prod.splits)

lemma export_table_blank: "export_table F (blank_store B) t d = export_table F B t d"
  by (simp add: export_table_def DB_Query_blank blank_cursor_def csv_records_blank
      split: prod.splits sum.splits)

lemma zip_tables_blank:
  "zip_tables F (blank_store B) creatable d tables = zip_tables F B creatable d tables"
proof (induction tables arbitrary: d)
  case Nil
  then show ?case by simp
next
  case (Cons t tables)
  then show ?case
    by (simp add: DB_Query_blank blank_cursor_def zip_records_blank
        split: prod.splits sum.splits)
qed

lemma csv_records_cells:
  "csv_records F rows = map (map (csv_cell F)) [vals. Scanned vals \<leftarrow> rows]"
proof (induction rows)
  case Nil
  then show ?case by simp
next
  case (Cons r rows)
  then show ?case by (cases r) simp_all
qed

lemma zip_records_cells:
  "zip_records F rows = map (\<lambda>r. map (csv_cell F) (scanned_values r)) rows"
proof (induction rows)
  case Nil
  then show ?case by simp
next
  case (Cons r rows)
  then show ?case by (cases r) simp_all
qed

lemma zip_tables_files:
  "fst (zip_tables F B creatable d tables) = archive_files F B creatable (committed d) tables"
proof (induction tables arbitrary: d)
  case Nil
  then show ?case by simp
next
  case (Cons t tables)
  obtain res s1 where q: "query_stmt B (committed d) (runes ''SELECT * FROM '' @ t) = (res, s1)"
    by (cases "query_stmt B (committed d) (runes ''SELECT * FROM '' @ t)") blast
  from Cons.IH [of "d\<lparr>committed := s1\<rparr>"] show ?case
    by (cases res) (auto simp: q DB_Query_def zip_records_cells split: prod.splits)
qed

lemma export_table_cells:
  "query_stmt B (committed d) (runes ''SELECT * FROM '' @ t) = (Inr cur, s1) \<Longrightarrow>
   reply (export_table F B t d) =
     CsvFile (t @ runes ''.csv'')
       (Columns cur # map (map (csv_cell F)) [vals. Scanned vals \<leftarrow> Rows cur])"
  by (simp add: export_table_def DB_Query_def csv_records_cells)


section \<open>Claims\<close>



text \<open>
  C7, as the specification states it: \<open>listTables\<close> returns the table names of the public
  namespace in the order of their declaration in the catalog. The query of
  \<^verbatim>\<open>GetTables\<close> orders by \<^verbatim>\<open>table_name\<close>: two tables declared as
  \<open>zebra\<close>, then \<open>apple\<close>, are listed as \<open>apple\<close>, \<open>zebra\<close>.
\<close>

theorem GetTables_declaration_order_counterexample:
  "GetTables (fetched_all (tables_query
      [\<lparr>tables_table_schema = runes ''public'', tables_table_name = runes ''zebra''\<rparr>,
       \<lparr>tables_table_schema = runes ''public'', tables_table_name = runes ''apple''\<rparr>]))
   \<noteq> Inr (map tables_table_name (filter (\<lambda>r. tables_table_schema r = runes ''public'')
      [\<lparr>tables_table_schema = runes ''public'', tables_table_name = runes ''zebra''\<rparr>,
       \<lparr>tables_table_schema = runes ''public'', tables_table_name = runes ''apple''\<rparr>]))"
  by (simp add: GetTables_def fetched_all_def tables_query_def runes_def)

text \<open>
  C7, amended: \<open>listTables\<close> returns the table names of the public namespace in
  ascending order of the names; and, table names being non-empty, the schema description
  is one block per table of the public namespace, the tables in ascending order of their
  names, each block listing the columns of its table in the order of their declaration
  (their ordinal positions).
\<close>

theorem introspector_order:
  "(\<exists>ns. GetTables (fetched_all (tables_query tv)) = Inr ns \<and> sorted ns
      \<and> mset ns = mset (map tables_table_name
            (filter (\<lambda>r. tables_table_schema r = runes ''public'') tv)))
   \<and> ((\<forall>r \<in> set cv. table_schema r = runes ''public'' \<longrightarrow> table_name r \<noteq> [])
        \<longrightarrow> GetSchema (fetched_all (columns_query cv)) = Inr (schema_description cv))"
proof (intro conjI impI)
  let ?ns = "tables_query tv"
  have "GetTables (fetched_all ?ns) = Inr ?ns"
    by (simp add: GetTables_def fetched_all_def tables_loop_all)
  moreover have "sorted ?ns"
    by (simp add: tables_query_def)
  moreover have "mset ?ns = mset (map tables_table_name
            (filter (\<lambda>r. tables_table_schema r = runes ''public'') tv))"
    by (simp add: tables_query_def)
  ultimately show "\<exists>ns. GetTables (fetched_all (tables_query tv)) = Inr ns \<and> sorted ns
      \<and> mset ns = mset (map tables_table_name
            (filter (\<lambda>r. tables_table_schema r = runes ''public'') tv))"
    by blast
next
  assume "\<forall>r \<in> set cv. table_schema r = runes ''public'' \<longrightarrow> table_name r \<noteq> []"
  then show "GetSchema (fetched_all (columns_query cv)) = Inr (schema_description cv)"
    by (rule GetSchema_description)
qed

theorem introspector_order_witness:
  "\<not> (\<exists>r \<in> set example_columns. table_schema r = runes ''public'' \<and> table_name r = [])
   \<and> GetSchema (fetched_all (columns_query example_columns)) =
       Inr (runes ''TABLE s ('' @ [10] @ runes ''  id integer,'' @ [10] @ runes '')'' @ [10]
         @ runes ''TABLE t ('' @ [10] @ runes ''  a integer,'' @ [10] @ runes ''  b text,'' @ [10]
         @ runes '')'' @ [10])"
proof -
  have h: "\<forall>r \<in> set example_columns. table_schema r = runes ''public'' \<longrightarrow> table_name r \<noteq> []"
    by (simp add: example_columns_def runes_def)
  then have "GetSchema (fetched_all (columns_query example_columns)) =
      Inr (schema_description example_columns)"
    using introspector_order [of example_tables example_columns] by blast
  then show ?thesis
    using h unfolding example_description by blast
qed

text \<open>
  C8. \<open>getSchema\<close> is a function of the contents of the catalog: when two calls find the
  same rows in \<^verbatim>\<open>information_schema.columns\<close>, in whatever order the catalog holds
  them, and a table name and an ordinal position identify a column of the public
  namespace, both calls return the same text.
\<close>

theorem GetSchema_stable:
  assumes "mset cv1 = mset cv2"
    and "inj_on (\<lambda>r. (table_name r, ordinal_position r))
           {r \<in> set cv1. table_schema r = runes ''public''}"
  shows "\<exists>schema. GetSchema (fetched_all (columns_query cv1)) = Inr schema
           \<and> GetSchema (fetched_all (columns_query cv2)) = Inr schema"
proof -
  have same: "columns_query cv1 = columns_query cv2"
    using assms by (rule columns_query_physical_order)
  obtain schema where "schema_loop [] [] (map Inr (columns_query cv1)) = Inr schema"
    using schema_loop_total by blast
  then have "GetSchema (fetched_all (columns_query cv1)) = Inr schema"
    by (simp add: GetSchema_def fetched_all_def)
  then show ?thesis
    unfolding same by blast
qed

theorem GetSchema_stable_witness:
  "mset example_columns = mset (rev example_columns)
   \<and> inj_on (\<lambda>r. (table_name r, ordinal_position r))
        {r \<in> set example_columns. table_schema r = runes ''public''}
   \<and> (\<exists>schema. GetSchema (fetched_all (columns_query example_columns)) = Inr schema
          \<and> GetSchema (fetched_all (columns_query (rev example_columns))) = Inr schema)"
proof -
  have m: "mset example_columns = mset (rev example_columns)"
    by simp
  have i: "inj_on (\<lambda>r. (table_name r, ordinal_position r))
        {r \<in> set example_columns. table_schema r = runes ''public''}"
    by (auto simp: inj_on_def example_columns_def runes_def)
  from GetSchema_stable [OF m i] m i show ?thesis
    by blast
qed




text \<open>
  C3. When the safety filter rejects the executable SQL that the generator produced for a
  question, \<open>answer\<close> fails with the unsafe-query error (status 403), no statement is sent
  to the store and the store is unchanged. More generally, every statement that \<open>query\<close>
  sends to the store has passed the filter.
\<close>

theorem query_blocks_unsafe:
  "(GetSchema (columns_fetch B (committed d)) = Inr schema
      \<and> NaturalLanguageToSQL gen schema prompt = Returned (g, c)
      \<and> \<not> IsQuerySafe U (fst (strip_chart g c))
    \<longrightarrow> query U J B gen (runes ''POST'') (Some prompt) d =
         \<lparr>reply = HttpError (runes ''Unsafe query generated. Operation blocked.'') 403,
          prompts = [query_prompt schema prompt], statements = [], db_after = d\<rparr>)
   \<and> (\<forall>stmt \<in> set (statements (query U J B gen httpMethod body d)). IsQuerySafe U stmt)"
proof (intro conjI impI ballI)
  assume a: "GetSchema (columns_fetch B (committed d)) = Inr schema
      \<and> NaturalLanguageToSQL gen schema prompt = Returned (g, c)
      \<and> \<not> IsQuerySafe U (fst (strip_chart g c))"
  obtain execSQL chartType where st: "strip_chart g c = (execSQL, chartType)"
    by (cases "strip_chart g c") blast
  with a have "\<not> IsQuerySafe U execSQL" by simp
  then show "query U J B gen (runes ''POST'') (Some prompt) d =
         \<lparr>reply = HttpError (runes ''Unsafe query generated. Operation blocked.'') 403,
          prompts = [query_prompt schema prompt], statements = [], db_after = d\<rparr>"
    using a query_returned [OF _ _ st, of B d schema gen prompt U J] by simp
next
  fix stmt
  assume "stmt \<in> set (statements (query U J B gen httpMethod body d))"
  then show "IsQuerySafe U stmt" by (rule query_statements_safe)
qed

theorem query_blocks_unsafe_witness:
  "GetSchema (columns_fetch unique_store (committed \<lparr>committed = [], transaction = None\<rparr>))
      = Inr (runes ''TABLE t ('' @ [10] @ runes ''  v integer,'' @ [10] @ runes '')'' @ [10])
   \<and> NaturalLanguageToSQL (fixed_answer (runes ''DROP TABLE restaurants;''))
        (runes ''TABLE t ('' @ [10] @ runes ''  v integer,'' @ [10] @ runes '')'' @ [10])
        (runes ''drop the restaurants table'')
      = Returned (runes ''DROP TABLE restaurants;'', False)
   \<and> \<not> IsQuerySafe id (fst (strip_chart (runes ''DROP TABLE restaurants;'') False))
   \<and> query id (\<lambda>n. True) unique_store (fixed_answer (runes ''DROP TABLE restaurants;'')) (runes ''POST'')
        (Some (runes ''drop the restaurants table'')) \<lparr>committed = [], transaction = None\<rparr>
      = \<lparr>reply = HttpError (runes ''Unsafe query generated. Operation blocked.'') 403,
         prompts = [query_prompt
           (runes ''TABLE t ('' @ [10] @ runes ''  v integer,'' @ [10] @ runes '')'' @ [10])
           (runes ''drop the restaurants table'')],
         statements = [], db_after = \<lparr>committed = [], transaction = None\<rparr>\<rparr>"
proof -
  let ?d = "\<lparr>committed = ([]::nat list), transaction = None\<rparr>"
  let ?schema = "runes ''TABLE t ('' @ [10] @ runes ''  v integer,'' @ [10] @ runes '')'' @ [10]"
  have a: "GetSchema (columns_fetch unique_store (committed ?d)) = Inr ?schema"
    by code_simp
  have b: "NaturalLanguageToSQL (fixed_answer (runes ''DROP TABLE restaurants;'')) ?schema
        (runes ''drop the restaurants table'')
      = Returned (runes ''DROP TABLE restaurants;'', False)"
    by code_simp
  have c: "\<not> IsQuerySafe id (fst (strip_chart (runes ''DROP TABLE restaurants;'') False))"
    by code_simp
  from query_blocks_unsafe [of unique_store ?d ?schema
      "fixed_answer (runes ''DROP TABLE restaurants;'')" "runes ''drop the restaurants table''"
      "runes ''DROP TABLE restaurants;''" False id "\<lambda>n. True"] a b c
  show ?thesis by blast
qed

text \<open>
  C4. When the generated text contains the chart marker, the text that \<open>query\<close> executes
  is the part of the generated text that precedes the first occurrence of the marker; the
  directive (the text after that marker, up to the next marker, trimmed) is kept as the
  chart type; and the \<open>sql\<close> field of a result is the generated text as it was before
  the directive was stripped.
\<close>

theorem query_strips_chart:
  assumes "GetSchema (columns_fetch B (committed d)) = Inr schema"
    and "NaturalLanguageToSQL gen schema prompt = Returned (g, c)"
    and "Contains g chart_marker"
  shows "\<exists>pre post. g = pre @ chart_marker @ post
      \<and> (\<forall>j < length pre. \<not> HasPrefix (drop j g) chart_marker)
      \<and> strip_chart g c = (pre, directive post)
      \<and> set (statements (query U J B gen (runes ''POST'') (Some prompt) d)) \<subseteq> {pre}
      \<and> (IsQuerySafe U pre \<longrightarrow>
            statements (query U J B gen (runes ''POST'') (Some prompt) d) = [pre])
      \<and> (\<forall>sql rows ic ct.
            reply (query U J B gen (runes ''POST'') (Some prompt) d) = QueryJSON sql rows ic ct
            \<longrightarrow> sql = g \<and> ic \<and> ct = directive post)"
proof -
  have c: "c = True"
    using NaturalLanguageToSQL_isChart [OF assms(2)] assms(3) by simp
  from marker_split [OF assms(3)] obtain pre post where p: "g = pre @ chart_marker @ post"
      "\<forall>j < length pre. \<not> HasPrefix (drop j g) chart_marker"
      "strip_chart g c = (pre, directive post)"
    unfolding c by blast
  note q = query_returned [OF assms(1,2) p(3), of U J]
  obtain res d1 where dq: "DB_Query B d pre = (res, d1)"
    by (cases "DB_Query B d pre") blast
  have s1: "set (statements (query U J B gen (runes ''POST'') (Some prompt) d)) \<subseteq> {pre}"
    unfolding q by (cases res) (simp_all add: dq)
  have s2: "statements (query U J B gen (runes ''POST'') (Some prompt) d) = [pre]"
    if "IsQuerySafe U pre"
    unfolding q using that by (cases res) (simp_all add: dq)
  have s3: "sql = g \<and> ic \<and> ct = directive post"
    if "reply (query U J B gen (runes ''POST'') (Some prompt) d) = QueryJSON sql rows ic ct"
    for sql rows ic ct
    using that unfolding q c
    by (cases "IsQuerySafe U pre"; cases res) (simp_all add: dq split: if_splits)
  from p s1 s2 s3 show ?thesis by blast
qed

theorem query_strips_chart_witness:
  "GetSchema (columns_fetch unique_store (committed \<lparr>committed = [], transaction = None\<rparr>))
      = Inr (runes ''TABLE t ('' @ [10] @ runes ''  v integer,'' @ [10] @ runes '')'' @ [10])
   \<and> NaturalLanguageToSQL
        (fixed_answer (runes ''SELECT v, COUNT(*) FROM t GROUP BY v; -- CHART: bar''))
        (runes ''TABLE t ('' @ [10] @ runes ''  v integer,'' @ [10] @ runes '')'' @ [10])
        (runes ''show a bar chart of t by v'')
      = Returned (runes ''SELECT v, COUNT(*) FROM t GROUP BY v; -- CHART: bar'', True)
   \<and> Contains (runes ''SELECT v, COUNT(*) FROM t GROUP BY v; -- CHART: bar'') chart_marker
   \<and> (\<exists>pre post.
         runes ''SELECT v, COUNT(*) FROM t GROUP BY v; -- CHART: bar'' = pre @ chart_marker @ post
         \<and> strip_chart (runes ''SELECT v, COUNT(*) FROM t GROUP BY v; -- CHART: bar'') True
             = (pre, directive post))
   \<and> query id (\<lambda>n. True) unique_store
        (fixed_answer (runes ''SELECT v, COUNT(*) FROM t GROUP BY v; -- CHART: bar''))
        (runes ''POST'') (Some (runes ''show a bar chart of t by v''))
        \<lparr>committed = [], transaction = None\<rparr>
      = \<lparr>reply = QueryJSON (runes ''SELECT v, COUNT(*) FROM t GROUP BY v; -- CHART: bar'') []
           True (runes ''bar''),
         prompts = [query_prompt
           (runes ''TABLE t ('' @ [10] @ runes ''  v integer,'' @ [10] @ runes '')'' @ [10])
           (runes ''show a bar chart of t by v'')],
         statements = [runes ''SELECT v, COUNT(*) FROM t GROUP BY v; ''],
         db_after = \<lparr>committed = [], transaction = None\<rparr>\<rparr>"
proof -
  let ?d = "\<lparr>committed = ([]::nat list), transaction = None\<rparr>"
  let ?schema = "runes ''TABLE t ('' @ [10] @ runes ''  v integer,'' @ [10] @ runes '')'' @ [10]"
  let ?g = "runes ''SELECT v, COUNT(*) FROM t GROUP BY v; -- CHART: bar''"
  have a: "GetSchema (columns_fetch unique_store (committed ?d)) = Inr ?schema"
    by code_simp
  have b: "NaturalLanguageToSQL (fixed_answer ?g) ?schema (runes ''show a bar chart of t by v'')
      = Returned (?g, True)"
    by code_simp
  have c: "Contains ?g chart_marker"
    by code_simp
  have e: "query id (\<lambda>n. True) unique_store (fixed_answer ?g) (runes ''POST'')
        (Some (runes ''show a bar chart of t by v'')) ?d
      = \<lparr>reply = QueryJSON ?g [] True (runes ''bar''),
         prompts = [query_prompt ?schema (runes ''show a bar chart of t by v'')],
         statements = [runes ''SELECT v, COUNT(*) FROM t GROUP BY v; ''],
         db_after = ?d\<rparr>"
    by code_simp
  from query_strips_chart [OF a b c, of id "\<lambda>n. True"]
  have "\<exists>pre post. ?g = pre @ chart_marker @ post
      \<and> strip_chart ?g True = (pre, directive post)"
    by blast
  then show ?thesis using a b c e by blast
qed

text \<open>
  C5, as the specification states it: a question with a chart intent word yields
  \<open>isChart = true\<close> and one of the four chart kinds, and a question without one yields
  \<open>isChart = false\<close>. The handler does not look at the question: with a generator that
  answers without a directive, a question with the words \<open>show\<close> and \<open>chart\<close> yields
  \<open>isChart = false\<close>; with a generator that answers with the directive \<open>scatter\<close>, the
  chart type is \<open>scatter\<close>, for a question with and for a question without an intent word.
\<close>

theorem chart_intent_counterexample:
  "(\<exists>w \<in> set intent_words. Contains (runes ''show a bar chart of t by v'') w)
   \<and> reply (query id (\<lambda>n. True) unique_store (fixed_answer (runes ''SELECT v FROM t'')) (runes ''POST'')
        (Some (runes ''show a bar chart of t by v'')) \<lparr>committed = [], transaction = None\<rparr>)
      = QueryJSON (runes ''SELECT v FROM t'') [] False []
   \<and> reply (query id (\<lambda>n. True) unique_store (fixed_answer (runes ''SELECT v FROM t -- CHART: scatter''))
        (runes ''POST'') (Some (runes ''show a bar chart of t by v''))
        \<lparr>committed = [], transaction = None\<rparr>)
      = QueryJSON (runes ''SELECT v FROM t -- CHART: scatter'') [] True (runes ''scatter'')
   \<and> runes ''scatter'' \<notin> {runes ''bar'', runes ''pie'', runes ''line'', runes ''doughnut''}
   \<and> \<not> (\<exists>w \<in> set intent_words. Contains (runes ''count the rows of t'') w)
   \<and> reply (query id (\<lambda>n. True) unique_store (fixed_answer (runes ''SELECT v FROM t -- CHART: scatter''))
        (runes ''POST'') (Some (runes ''count the rows of t''))
        \<lparr>committed = [], transaction = None\<rparr>)
      = QueryJSON (runes ''SELECT v FROM t -- CHART: scatter'') [] True (runes ''scatter'')"
  by code_simp

text \<open>
  C5, amended: in every result of \<open>query\<close>, \<open>isChart\<close> is true exactly when the generated
  text contains the chart marker; the chart type is then the trimmed text between the
  first marker and the next marker (or the end of the text, when there is no other
  marker), whatever it says, and is empty otherwise. Two questions for which the generator
  gives the same answer get the same reply.
\<close>

theorem chart_flag_from_generator:
  "(reply (query U J B gen httpMethod body d) = QueryJSON sql rows ic ct \<longrightarrow>
      ic = Contains sql chart_marker
      \<and> (ic \<longrightarrow> (\<exists>pre post. sql = pre @ chart_marker @ post
              \<and> (\<forall>j < length pre. \<not> HasPrefix (drop j sql) chart_marker)
              \<and> ct = directive post))
      \<and> (\<not> ic \<longrightarrow> ct = []))
   \<and> ((\<forall>schema. GetSchema (columns_fetch B (committed d)) = Inr schema \<longrightarrow>
          gen (query_prompt schema p1) = gen (query_prompt schema p2))
       \<longrightarrow> reply (query U J B gen httpMethod (Some p1) d) = reply (query U J B gen httpMethod (Some p2) d))"
proof (intro conjI impI)
  assume r: "reply (query U J B gen httpMethod body d) = QueryJSON sql rows ic ct"
  from query_json [OF r] obtain schema prompt execSQL where
    n: "NaturalLanguageToSQL gen schema prompt = Returned (sql, ic)"
    and st: "strip_chart sql ic = (execSQL, ct)"
    by blast
  show ic: "ic = Contains sql chart_marker"
    using n by (rule NaturalLanguageToSQL_isChart)
  show "\<exists>pre post. sql = pre @ chart_marker @ post
      \<and> (\<forall>j < length pre. \<not> HasPrefix (drop j sql) chart_marker) \<and> ct = directive post"
    if "ic"
  proof -
    from that ic have "Contains sql chart_marker" by simp
    from marker_split [OF this] st that show ?thesis by auto
  qed
  show "ct = []" if "\<not> ic"
    using that st by (simp add: strip_chart_absent)
next
  assume same: "\<forall>schema. GetSchema (columns_fetch B (committed d)) = Inr schema \<longrightarrow>
          gen (query_prompt schema p1) = gen (query_prompt schema p2)"
  show "reply (query U J B gen httpMethod (Some p1) d) = reply (query U J B gen httpMethod (Some p2) d)"
  proof (cases "GetSchema (columns_fetch B (committed d))")
    case (Inl err)
    then show ?thesis by (simp add: query_def)
  next
    case (Inr schema)
    then have "gen (query_prompt schema p1) = gen (query_prompt schema p2)"
      using same by blast
    then have "NaturalLanguageToSQL gen schema p1 = NaturalLanguageToSQL gen schema p2"
      by (simp add: NaturalLanguageToSQL_def)
    then show ?thesis
      using Inr
      by (auto simp: query_def split: call.splits prod.splits sum.splits)
  qed
qed

theorem chart_flag_from_generator_witness:
  "reply (query id (\<lambda>n. True) unique_store (fixed_answer (runes ''SELECT v FROM t -- CHART: scatter''))
        (runes ''POST'') (Some (runes ''show a bar chart of t by v''))
        \<lparr>committed = [], transaction = None\<rparr>)
      = QueryJSON (runes ''SELECT v FROM t -- CHART: scatter'') [] True (runes ''scatter'')
   \<and> True = Contains (runes ''SELECT v FROM t -- CHART: scatter'') chart_marker
   \<and> (\<exists>pre post. runes ''SELECT v FROM t -- CHART: scatter'' = pre @ chart_marker @ post
         \<and> runes ''scatter'' = directive post)
   \<and> reply (query id (\<lambda>n. True) unique_store (fixed_answer (runes ''SELECT v FROM t -- CHART: scatter''))
        (runes ''POST'') (Some (runes ''show a bar chart of t by v''))
        \<lparr>committed = [], transaction = None\<rparr>)
      = reply (query id (\<lambda>n. True) unique_store (fixed_answer (runes ''SELECT v FROM t -- CHART: scatter''))
        (runes ''POST'') (Some (runes ''count the rows of t''))
        \<lparr>committed = [], transaction = None\<rparr>)
   \<and> reply (query id (\<lambda>n. True) unique_store
        (fixed_answer (runes ''SELECT v FROM t -- CHART: bar -- CHART: pie''))
        (runes ''POST'') (Some (runes ''show a bar chart of t by v''))
        \<lparr>committed = [], transaction = None\<rparr>)
      = QueryJSON (runes ''SELECT v FROM t -- CHART: bar -- CHART: pie'') [] True (runes ''bar'')"
proof -
  let ?d = "\<lparr>committed = ([]::nat list), transaction = None\<rparr>"
  let ?gen = "fixed_answer (runes ''SELECT v FROM t -- CHART: scatter'')"
  note t = chart_flag_from_generator [of id "\<lambda>n. True" unique_store ?gen "runes ''POST''"
      "Some (runes ''show a bar chart of t by v'')" ?d
      "runes ''SELECT v FROM t -- CHART: scatter''" "[]" True "runes ''scatter''"
      "runes ''show a bar chart of t by v''" "runes ''count the rows of t''"]
  have r: "reply (query id (\<lambda>n. True) unique_store ?gen (runes ''POST'')
        (Some (runes ''show a bar chart of t by v'')) ?d)
      = QueryJSON (runes ''SELECT v FROM t -- CHART: scatter'') [] True (runes ''scatter'')"
    by code_simp
  have g: "?gen (query_prompt schema (runes ''show a bar chart of t by v''))
      = ?gen (query_prompt schema (runes ''count the rows of t''))" for schema
    by (simp add: fixed_answer_def)
  have two: "reply (query id (\<lambda>n. True) unique_store
        (fixed_answer (runes ''SELECT v FROM t -- CHART: bar -- CHART: pie''))
        (runes ''POST'') (Some (runes ''show a bar chart of t by v'')) ?d)
      = QueryJSON (runes ''SELECT v FROM t -- CHART: bar -- CHART: pie'') [] True (runes ''bar'')"
    by code_simp
  from t r g two show ?thesis by blast
qed

text \<open>
  C6, as the specification states it: no execution error is swallowed, also none of a row
  read from a cursor. In \<open>query\<close> a row whose scan fails is skipped and the error that
  ended the iteration of the cursor is never read: the reply is a result with the rows
  that scanned. And when the encoder cannot write a value, its error is dropped: the
  reply has status 200 and no body.
\<close>

theorem scan_error_swallowed_counterexample:
  "query_stmt broken_row_store [] (runes ''SELECT v FROM t'')
      = (Inr \<lparr>Columns = [runes ''v''],
               Rows = [Scanned [Val 1], ScanFailed (Error (runes ''sql: Scan error'')) [Null],
                       Scanned [Val 3]],
               RowsErr = Some (Error (runes ''read: connection reset by peer''))\<rparr>, [])
   \<and> reply (query id (\<lambda>n. True) broken_row_store (fixed_answer (runes ''SELECT v FROM t''))
        (runes ''POST'') (Some (runes ''list the values of t''))
        \<lparr>committed = [], transaction = None\<rparr>)
      = QueryJSON (runes ''SELECT v FROM t'')
          [[(runes ''v'', Val 1)], [(runes ''v'', Val 3)]] False []
   \<and> reply (query id (\<lambda>n. n \<noteq> 3) broken_row_store (fixed_answer (runes ''SELECT v FROM t''))
        (runes ''POST'') (Some (runes ''list the values of t''))
        \<lparr>committed = [], transaction = None\<rparr>)
      = NoBody"
  by code_simp

text \<open>
  C6, amended: the error of the statement of a batch that fails is reported to the caller
  with the text of the statement; so is, on the path of \<open>query\<close>, the error that the
  execution of the statement itself returns. When the execution returns a cursor, no
  later error is reported: whatever error ended the iteration, the reply is the result
  with the rows of the cursor that scanned, in order, a row that did not scan being left
  out; or, when the encoder cannot write these rows, the status 200 with no body.
\<close>

theorem execution_errors_surface:
  "(GetSchema (columns_fetch B (committed d)) = Inr schema \<and> schema \<noteq> []
      \<and> GenerateDataSQL gen (schema::str) (Temperature req) (MaxTokens req) = Returned sql
      \<and> begin_error B (committed d) = None
      \<and> run_on_connection B (d\<lparr>transaction := Some (committed d)\<rparr>) (statement_batch sql)
          = Inl (err, stmt)
    \<longrightarrow> reply (generateData F B gen (runes ''POST'') (Some req) d) =
          HttpError (runes ''Error executing generated SQL: '' @ message err
            @ [10] @ runes ''SQL: '' @ stmt) 500)
   \<and> (GetSchema (columns_fetch B (committed d)) = Inr schema
      \<and> NaturalLanguageToSQL gen2 schema prompt = Returned (g, c)
      \<and> IsQuerySafe U (fst (strip_chart g c))
    \<longrightarrow> (case query_stmt B (committed d) (fst (strip_chart g c)) of
          (Inl err2, s1) \<Rightarrow>
            reply (query U J B gen2 (runes ''POST'') (Some prompt) d) =
              HttpError (runes ''Query execution error: '' @ message err2
                @ [10] @ runes ''SQL: '' @ fst (strip_chart g c)) 500
        | (Inr cur, s1) \<Rightarrow>
            reply (query U J B gen2 (runes ''POST'') (Some prompt) d) =
              (if json_rows J (map (row_map (Columns cur)) [vals. Scanned vals \<leftarrow> Rows cur])
               then QueryJSON g (map (row_map (Columns cur)) [vals. Scanned vals \<leftarrow> Rows cur])
                      c (snd (strip_chart g c))
               else NoBody)))"
proof (intro conjI impI)
  assume a: "GetSchema (columns_fetch B (committed d)) = Inr schema \<and> schema \<noteq> []
      \<and> GenerateDataSQL gen schema (Temperature req) (MaxTokens req) = Returned sql
      \<and> begin_error B (committed d) = None
      \<and> run_on_connection B (d\<lparr>transaction := Some (committed d)\<rparr>) (statement_batch sql)
          = Inl (err, stmt)"
  then obtain sent d1 where "execute_generated B d sql =
     (Some (HttpError (runes ''Error executing generated SQL: '' @ message err
         @ [10] @ runes ''SQL: '' @ stmt) 500), sent, d1)"
    using execute_generated_failure [of B d sql err stmt] by blast
  then show "reply (generateData F B gen (runes ''POST'') (Some req) d) =
          HttpError (runes ''Error executing generated SQL: '' @ message err
            @ [10] @ runes ''SQL: '' @ stmt) 500"
    using a by (simp add: generateData_def)
next
  assume a: "GetSchema (columns_fetch B (committed d)) = Inr schema
      \<and> NaturalLanguageToSQL gen2 schema prompt = Returned (g, c)
      \<and> IsQuerySafe U (fst (strip_chart g c))"
  obtain execSQL chartType where st: "strip_chart g c = (execSQL, chartType)"
    by (cases "strip_chart g c") blast
  have q: "query U J B gen2 (runes ''POST'') (Some prompt) d =
      (case DB_Query B d execSQL of
         (Inl err, d1) \<Rightarrow>
           \<lparr>reply = HttpError (runes ''Query execution error: '' @ message err
              @ [10] @ runes ''SQL: '' @ execSQL) 500,
            prompts = [query_prompt schema prompt], statements = [execSQL], db_after = d1\<rparr>
       | (Inr cur, d1) \<Rightarrow>
           \<lparr>reply = (if json_rows J (result_rows (Columns cur) (Rows cur))
                     then QueryJSON g (result_rows (Columns cur) (Rows cur)) c chartType
                     else NoBody),
            prompts = [query_prompt schema prompt], statements = [execSQL], db_after = d1\<rparr>)"
    using a st query_returned [OF _ _ st, of B d schema gen2 prompt U J] by simp
  show "case query_stmt B (committed d) (fst (strip_chart g c)) of
          (Inl err2, s1) \<Rightarrow>
            reply (query U J B gen2 (runes ''POST'') (Some prompt) d) =
              HttpError (runes ''Query execution error: '' @ message err2
                @ [10] @ runes ''SQL: '' @ fst (strip_chart g c)) 500
        | (Inr cur, s1) \<Rightarrow>
            reply (query U J B gen2 (runes ''POST'') (Some prompt) d) =
              (if json_rows J (map (row_map (Columns cur)) [vals. Scanned vals \<leftarrow> Rows cur])
               then QueryJSON g (map (row_map (Columns cur)) [vals. Scanned vals \<leftarrow> Rows cur])
                      c (snd (strip_chart g c))
               else NoBody)"
    unfolding q st
    by (simp add: DB_Query_def result_rows_scanned split: prod.splits sum.splits)
qed

theorem execution_errors_surface_witness:
  "GetSchema (columns_fetch unique_store (committed \<lparr>committed = [], transaction = None\<rparr>))
      = Inr (runes ''TABLE t ('' @ [10] @ runes ''  v integer,'' @ [10] @ runes '')'' @ [10])
   \<and> GenerateDataSQL twice_generator
        (runes ''TABLE t ('' @ [10] @ runes ''  v integer,'' @ [10] @ runes '')'' @ [10])
        (Temperature \<lparr>Temperature = (), MaxTokens = 100\<rparr>)
        (MaxTokens \<lparr>Temperature = (), MaxTokens = 100\<rparr>)
      = Returned (runes ''INSERT INTO t VALUES (1); INSERT INTO t VALUES (1)'')
   \<and> run_on_connection unique_store \<lparr>committed = [], transaction = Some []\<rparr>
        (statement_batch (runes ''INSERT INTO t VALUES (1); INSERT INTO t VALUES (1)''))
      = Inl (Error (runes ''duplicate key value violates unique constraint''),
             runes ''INSERT INTO t VALUES (1)'')
   \<and> reply (generateData (\<lambda>n. []) unique_store twice_generator (runes ''POST'')
        (Some \<lparr>Temperature = (), MaxTokens = 100\<rparr>) \<lparr>committed = [], transaction = None\<rparr>)
      = HttpError (runes ''Error executing generated SQL: ''
          @ message (Error (runes ''duplicate key value violates unique constraint''))
          @ [10] @ runes ''SQL: '' @ runes ''INSERT INTO t VALUES (1)'') 500
   \<and> NaturalLanguageToSQL (fixed_answer (runes ''ERROR: Unauthorized''))
        (runes ''TABLE t ('' @ [10] @ runes ''  v integer,'' @ [10] @ runes '')'' @ [10])
        (runes ''delete everything'')
      = Returned (runes ''ERROR: Unauthorized'', False)
   \<and> IsQuerySafe id (fst (strip_chart (runes ''ERROR: Unauthorized'') False))
   \<and> reply (query id (\<lambda>n. True) unique_store (fixed_answer (runes ''ERROR: Unauthorized''))
        (runes ''POST'') (Some (runes ''delete everything''))
        \<lparr>committed = [], transaction = None\<rparr>)
      = HttpError (runes ''Query execution error: syntax error at or near ERROR'' @ [10]
          @ runes ''SQL: ERROR: Unauthorized'') 500
   \<and> reply (query id (\<lambda>n. True) broken_row_store (fixed_answer (runes ''SELECT v FROM t''))
        (runes ''POST'') (Some (runes ''list the values of t''))
        \<lparr>committed = [], transaction = None\<rparr>)
      = QueryJSON (runes ''SELECT v FROM t'')
          [[(runes ''v'', Val 1)], [(runes ''v'', Val 3)]] False []"
proof -
  let ?d = "\<lparr>committed = ([]::nat list), transaction = None\<rparr>"
  let ?schema = "runes ''TABLE t ('' @ [10] @ runes ''  v integer,'' @ [10] @ runes '')'' @ [10]"
  let ?req = "\<lparr>Temperature = (), MaxTokens = 100\<rparr>"
  let ?sql = "runes ''INSERT INTO t VALUES (1); INSERT INTO t VALUES (1)''"
  let ?err = "Error (runes ''duplicate key value violates unique constraint'')"
  note t = execution_errors_surface [of unique_store ?d ?schema twice_generator ?req ?sql
      ?err "runes ''INSERT INTO t VALUES (1)''" "\<lambda>n. []"
      "fixed_answer (runes ''ERROR: Unauthorized'')" "runes ''delete everything''"
      "runes ''ERROR: Unauthorized''" False id "\<lambda>n. True"]
  note t2 = execution_errors_surface [of broken_row_store ?d ?schema twice_generator ?req ?sql
      ?err "runes ''INSERT INTO t VALUES (1)''" "\<lambda>n. []"
      "fixed_answer (runes ''SELECT v FROM t'')" "runes ''list the values of t''"
      "runes ''SELECT v FROM t''" False id "\<lambda>n. True"]
  have a: "GetSchema (columns_fetch unique_store (committed ?d)) = Inr ?schema"
    by code_simp
  have a2: "GetSchema (columns_fetch broken_row_store (committed ?d)) = Inr ?schema"
    by code_simp
  have a': "?schema \<noteq> []"
    by (simp add: runes_def)
  have b: "GenerateDataSQL twice_generator ?schema (Temperature ?req) (MaxTokens ?req)
      = Returned ?sql"
    by code_simp
  have c: "begin_error unique_store (committed ?d) = None"
    by (simp add: unique_store_def)
  have e: "run_on_connection unique_store (?d\<lparr>transaction := Some (committed ?d)\<rparr>)
        (statement_batch ?sql) = Inl (?err, runes ''INSERT INTO t VALUES (1)'')"
    by code_simp
  have r1: "reply (generateData (\<lambda>n. []) unique_store twice_generator (runes ''POST'')
        (Some ?req) ?d)
      = HttpError (runes ''Error executing generated SQL: '' @ message ?err
          @ [10] @ runes ''SQL: '' @ runes ''INSERT INTO t VALUES (1)'') 500"
    using t a a' b c e by blast
  have f: "NaturalLanguageToSQL (fixed_answer (runes ''ERROR: Unauthorized'')) ?schema
        (runes ''delete everything'') = Returned (runes ''ERROR: Unauthorized'', False)"
    by code_simp
  have g: "IsQuerySafe id (fst (strip_chart (runes ''ERROR: Unauthorized'') False))"
    by code_simp
  have r2: "reply (query id (\<lambda>n. True) unique_store (fixed_answer (runes ''ERROR: Unauthorized''))
        (runes ''POST'') (Some (runes ''delete everything'')) ?d)
      = HttpError (runes ''Query execution error: syntax error at or near ERROR'' @ [10]
          @ runes ''SQL: ERROR: Unauthorized'') 500"
    by code_simp
  have f2: "NaturalLanguageToSQL (fixed_answer (runes ''SELECT v FROM t'')) ?schema
        (runes ''list the values of t'') = Returned (runes ''SELECT v FROM t'', False)"
    by code_simp
  have g2: "IsQuerySafe id (fst (strip_chart (runes ''SELECT v FROM t'') False))"
    by code_simp
  have q2: "query_stmt broken_row_store (committed ?d)
        (fst (strip_chart (runes ''SELECT v FROM t'') False))
      = (Inr \<lparr>Columns = [runes ''v''],
               Rows = [Scanned [Val 1], ScanFailed (Error (runes ''sql: Scan error'')) [Null],
                       Scanned [Val 3]],
               RowsErr = Some (Error (runes ''read: connection reset by peer''))\<rparr>, [])"
    by code_simp
  have r3: "reply (query id (\<lambda>n. True) broken_row_store (fixed_answer (runes ''SELECT v FROM t''))
        (runes ''POST'') (Some (runes ''list the values of t'')) ?d)
      = QueryJSON (runes ''SELECT v FROM t'')
          [[(runes ''v'', Val 1)], [(runes ''v'', Val 3)]] False []"
    using t2 a2 f2 g2 unfolding q2
    by (simp add: row_map_def json_rows_def strip_chart_absent)
  from a b e r1 f g r2 r3 show ?thesis by simp
qed

text \<open>
  C9. When the catalog has no table in the public namespace (the query of the schema
  returns no row, and the schema description is empty), \<open>generate\<close> fails with the
  empty-schema error (status 400), before any prompt is sent to the generator and before
  any statement is sent to the store.
\<close>

theorem generateData_empty_schema:
  assumes "columns_fetch B (committed d) = fetched_all (columns_query cv)"
    and "\<not> (\<exists>r \<in> set cv. table_schema r = runes ''public'')"
  shows "generateData F B gen (runes ''POST'') (Some req) d =
     \<lparr>reply = HttpError (runes ''No tables found in database'') 400, prompts = [],
      statements = [], db_after = d\<rparr>"
proof -
  have "filter (\<lambda>r. table_schema r = runes ''public'') cv = []"
    using assms(2) by (simp add: filter_empty_conv)
  then have "columns_query cv = []"
    by (simp add: columns_query_def)
  then have "GetSchema (columns_fetch B (committed d)) = Inr []"
    using assms(1) by (simp add: GetSchema_def fetched_all_def)
  then show ?thesis
    by (simp add: generateData_def)
qed

theorem generateData_empty_schema_witness:
  "columns_fetch (unique_store\<lparr>columns_fetch := (\<lambda>w. fetched_all (columns_query
        [\<lparr>table_schema = runes ''pg_catalog'', table_name = runes ''pg_class'',
          column_name = runes ''oid'', data_type = runes ''oid'', ordinal_position = 1\<rparr>]))\<rparr>)
      (committed \<lparr>committed = [], transaction = None\<rparr>)
     = fetched_all (columns_query
        [\<lparr>table_schema = runes ''pg_catalog'', table_name = runes ''pg_class'',
          column_name = runes ''oid'', data_type = runes ''oid'', ordinal_position = 1\<rparr>])
   \<and> \<not> (\<exists>r \<in> set [\<lparr>table_schema = runes ''pg_catalog'', table_name = runes ''pg_class'',
          column_name = runes ''oid'', data_type = runes ''oid'', ordinal_position = 1\<rparr>].
          table_schema r = runes ''public'')
   \<and> generateData (\<lambda>n. []) (unique_store\<lparr>columns_fetch := (\<lambda>w. fetched_all (columns_query
        [\<lparr>table_schema = runes ''pg_catalog'', table_name = runes ''pg_class'',
          column_name = runes ''oid'', data_type = runes ''oid'', ordinal_position = 1\<rparr>]))\<rparr>)
        twice_generator (runes ''POST'') (Some \<lparr>Temperature = (), MaxTokens = 100\<rparr>)
        \<lparr>committed = [], transaction = None\<rparr>
     = \<lparr>reply = HttpError (runes ''No tables found in database'') 400, prompts = [],
        statements = [], db_after = \<lparr>committed = [], transaction = None\<rparr>\<rparr>"
proof -
  let ?cv = "[\<lparr>table_schema = runes ''pg_catalog'', table_name = runes ''pg_class'',
          column_name = runes ''oid'', data_type = runes ''oid'', ordinal_position = 1\<rparr>]"
  let ?B = "unique_store\<lparr>columns_fetch := (\<lambda>w. fetched_all (columns_query ?cv))\<rparr>"
  let ?d = "\<lparr>committed = ([]::nat list), transaction = None\<rparr>"
  have a: "columns_fetch ?B (committed ?d) = fetched_all (columns_query ?cv)"
    by simp
  have b: "\<not> (\<exists>r \<in> set ?cv. table_schema r = runes ''public'')"
    by (simp add: runes_def)
  from generateData_empty_schema [OF a b, of "\<lambda>n. []" twice_generator
      "\<lparr>Temperature = (), MaxTokens = 100\<rparr>"] a b
  show ?thesis by blast
qed

text \<open>
  C10. In both exports a nil value is written as the empty string, as the empty string
  itself is. The cell written for nil and the cell written for the empty string are both
  empty; the single-table export writes, after the header, one record for every row that
  scanned, and the archive holds, for every table that it exports, the header and one
  record for every row, each record made of the cells of the values of its row; so the
  export of a store is the export of the store that delivers empty strings in the place
  of its nils.
\<close>

theorem csv_null_as_empty:
  "csv_cell F Null = [] \<and> csv_cell F (Str []) = []
   \<and> (tableParam \<noteq> []
        \<and> query_stmt B (committed d) (runes ''SELECT * FROM '' @ tableParam) = (Inr cur, s1)
      \<longrightarrow> reply (downloadCSV F B tableParam d) =
            CsvFile (tableParam @ runes ''.csv'')
              (Columns cur # map (map (csv_cell F)) [vals. Scanned vals \<leftarrow> Rows cur]))
   \<and> (GetTables (tables_fetch B (committed d)) = Inr (t # ts)
        \<and> query_stmt B (committed d) (runes ''SELECT * FROM '' @ t) = (Inr cur, s1)
      \<longrightarrow> reply (downloadCSV F B [] d) =
            CsvFile (t @ runes ''.csv'')
              (Columns cur # map (map (csv_cell F)) [vals. Scanned vals \<leftarrow> Rows cur]))
   \<and> (GetTables (tables_fetch B (committed d)) = Inr tables
      \<longrightarrow> reply (downloadZip F B creatable d) =
            ZipFile (archive_files F B creatable (committed d) tables))
   \<and> downloadCSV F (blank_store B) tableParam d = downloadCSV F B tableParam d
   \<and> downloadZip F (blank_store B) creatable d = downloadZip F B creatable d"
proof (intro conjI impI)
  show "csv_cell F Null = []" and "csv_cell F (Str []) = []"
    by (simp_all add: csv_cell_def)
next
  assume "tableParam \<noteq> []
        \<and> query_stmt B (committed d) (runes ''SELECT * FROM '' @ tableParam) = (Inr cur, s1)"
  then show "reply (downloadCSV F B tableParam d) =
            CsvFile (tableParam @ runes ''.csv'')
              (Columns cur # map (map (csv_cell F)) [vals. Scanned vals \<leftarrow> Rows cur])"
    by (simp add: downloadCSV_def export_table_cells)
next
  assume "GetTables (tables_fetch B (committed d)) = Inr (t # ts)
        \<and> query_stmt B (committed d) (runes ''SELECT * FROM '' @ t) = (Inr cur, s1)"
  then show "reply (downloadCSV F B [] d) =
            CsvFile (t @ runes ''.csv'')
              (Columns cur # map (map (csv_cell F)) [vals. Scanned vals \<leftarrow> Rows cur])"
    by (simp add: downloadCSV_def export_table_cells)
next
  assume g: "GetTables (tables_fetch B (committed d)) = Inr tables"
  obtain files sent d1 where z: "zip_tables F B creatable d tables = (files, sent, d1)"
    by (cases "zip_tables F B creatable d tables") auto
  then have "files = archive_files F B creatable (committed d) tables"
    using zip_tables_files [of F B creatable d tables] by simp
  then show "reply (downloadZip F B creatable d) =
            ZipFile (archive_files F B creatable (committed d) tables)"
    using g z by (simp add: downloadZip_def)
next
  have t: "tables_fetch (blank_store B) = tables_fetch B"
    by (simp add: blank_store_def)
  show "downloadCSV F (blank_store B) tableParam d = downloadCSV F B tableParam d"
    by (simp add: downloadCSV_def t export_table_blank split: sum.splits list.splits)
  show "downloadZip F (blank_store B) creatable d = downloadZip F B creatable d"
    by (simp add: downloadZip_def t zip_tables_blank split: sum.splits)
qed

theorem csv_null_as_empty_witness:
  "query_stmt null_store (committed \<lparr>committed = [], transaction = None\<rparr>)
        (runes ''SELECT * FROM '' @ runes ''t'')
      = (Inr \<lparr>Columns = [runes ''a'', runes ''b'', runes ''c''],
              Rows = [Scanned [Null, Str [], Val 5], ScanFailed (Error (runes ''sql: Scan error''))
                        [Val 7, Null, Null]],
              RowsErr = None\<rparr>, [])
   \<and> GetTables (tables_fetch null_store (committed \<lparr>committed = [], transaction = None\<rparr>))
      = Inr [runes ''t'']
   \<and> reply (downloadCSV (\<lambda>n. [48 + n]) null_store (runes ''t'')
        \<lparr>committed = [], transaction = None\<rparr>)
      = CsvFile (runes ''t.csv'') [[runes ''a'', runes ''b'', runes ''c''], [[], [], runes ''5'']]
   \<and> reply (downloadCSV (\<lambda>n. [48 + n]) null_store [] \<lparr>committed = [], transaction = None\<rparr>)
      = CsvFile (runes ''t.csv'') [[runes ''a'', runes ''b'', runes ''c''], [[], [], runes ''5'']]
   \<and> reply (downloadZip (\<lambda>n. [48 + n]) null_store (\<lambda>name. True)
        \<lparr>committed = [], transaction = None\<rparr>)
      = ZipFile [(runes ''t.csv'',
          [[runes ''a'', runes ''b'', runes ''c''], [[], [], runes ''5''], [runes ''7'', [], []]])]"
proof -
  let ?F = "\<lambda>n::nat. [48 + n]"
  let ?d = "\<lparr>committed = ([]::nat list), transaction = None\<rparr>"
  let ?cur = "\<lparr>Columns = [runes ''a'', runes ''b'', runes ''c''],
              Rows = [Scanned [Null, Str [], Val (5::nat)],
                      ScanFailed (Error (runes ''sql: Scan error'')) [Val 7, Null, Null]],
              RowsErr = None\<rparr>"
  note t = csv_null_as_empty [of ?F "runes ''t''" null_store ?d ?cur "[]" "runes ''t''" "[]"
      "[runes ''t'']" "\<lambda>name. True"]
  have ne: "runes ''t'' \<noteq> []" by (simp add: runes_def)
  have q: "query_stmt null_store (committed ?d) (runes ''SELECT * FROM '' @ runes ''t'')
      = (Inr ?cur, [])"
    by code_simp
  have g: "GetTables (tables_fetch null_store (committed ?d)) = Inr [runes ''t'']"
    by code_simp
  have c1: "Columns ?cur # map (map (csv_cell ?F)) [vals. Scanned vals \<leftarrow> Rows ?cur]
      = [[runes ''a'', runes ''b'', runes ''c''], [[], [], runes ''5'']]"
    by code_simp
  have z: "archive_files ?F null_store (\<lambda>name. True) (committed ?d) [runes ''t'']
      = [(runes ''t.csv'',
          [[runes ''a'', runes ''b'', runes ''c''], [[], [], runes ''5''], [runes ''7'', [], []]])]"
    by code_simp
  have n: "runes ''t'' @ runes ''.csv'' = runes ''t.csv''"
    by (simp add: runes_def)
  have r1: "reply (downloadCSV ?F null_store (runes ''t'') ?d)
      = CsvFile (runes ''t.csv'') [[runes ''a'', runes ''b'', runes ''c''], [[], [], runes ''5'']]"
    using t ne q unfolding c1 n by blast
  have r2: "reply (downloadCSV ?F null_store [] ?d)
      = CsvFile (runes ''t.csv'') [[runes ''a'', runes ''b'', runes ''c''], [[], [], runes ''5'']]"
    using t g q unfolding c1 n by blast
  have r3: "reply (downloadZip ?F null_store (\<lambda>name. True) ?d)
      = ZipFile [(runes ''t.csv'',
          [[runes ''a'', runes ''b'', runes ''c''], [[], [], runes ''5''], [runes ''7'', [], []]])]"
    using t g unfolding z by blast
  from q g r1 r2 r3 show ?thesis by blast
qed

end
